theory Spec2Isabelle
  imports Complex_Main
begin

section \<open>Python values\<close>

text \<open>
  The analysis core of the microjet detector is the class \<open>Frame\<close> of \<open>frame.py\<close>.
  Python integers are modelled as \<open>int\<close> and floating point numbers as the real numbers
  they denote. The arithmetic of the speed estimate is rounded as the floats round it; the
  measurements of the shapes of a frame are taken as exact real numbers. Exceptions are
  values of the type \<open>error\<close>; a function that may raise returns \<open>error + 'a\<close>, with
  \<open>Inl\<close> for the exception.
\<close>

datatype error = ZeroDivisionError | ValueError | IndexError | CvError

text \<open>\<open>int(x)\<close> of a float truncates towards zero.\<close>

definition py_int :: "real \<Rightarrow> int" where
  "py_int x = (if 0 \<le> x then \<lfloor>x\<rfloor> else \<lceil>x\<rceil>)"

text \<open>\<open>xs[i]\<close> raises IndexError out of range.\<close>

definition py_index :: "'a list \<Rightarrow> nat \<Rightarrow> error + 'a" where
  "py_index xs i = (if i < length xs then Inr (xs ! i) else Inl IndexError)"

text \<open>The arithmetic mean of a list of integers, as a real number; \<open>0\<close> for the empty list.\<close>

definition arithmetic_mean :: "int list \<Rightarrow> real" where
  "arithmetic_mean xs = (if xs = [] then 0 else real_of_int (sum_list xs) / real (length xs))"

section \<open>Floating point arithmetic\<close>

text \<open>
  A Python \<open>float\<close> and a NumPy \<open>float64\<close> are IEEE 754 binary64 numbers, and every
  arithmetic operation on them returns the exact result rounded to the nearest such number,
  ties to the even one. \<open>round_half_even\<close> rounds a real number to an integer in that
  way. \<open>float64_round x\<close> is the binary64 number nearest to \<open>x\<close>: a multiple of
  \<open>2 powi (e - 52)\<close> where \<open>2 powi e \<le> |x| < 2 powi (e + 1)\<close>, and a multiple of
  \<open>2 powi (- 1074)\<close> for the subnormal numbers below \<open>2 powi (- 1022)\<close>, so that a number
  of at most \<open>2 powi (- 1075)\<close> is rounded to zero.
\<close>

definition round_half_even :: "real \<Rightarrow> int" where
  "round_half_even y =
     (let f = \<lfloor>y\<rfloor>; d = y - of_int f
      in if d < 1 / 2 then f else if 1 / 2 < d then f + 1 else if even f then f else f + 1)"

definition float64_round :: "real \<Rightarrow> real" where
  "float64_round x =
     (if x = 0 then 0
      else
        (let e = max \<lfloor>log 2 \<bar>x\<bar>\<rfloor> (- 1022);
             ulp = 2 powi (e - 52)
         in of_int (round_half_even (x / ulp)) * ulp))"

text \<open>
  The largest binary64 number is \<open>2 ^ 1024 - 2 ^ 971\<close>. A result of a float division whose
  exact value is at least half a unit beyond it is an infinity, which Python returns as
  the float \<open>inf\<close> or \<open>-inf\<close> without raising.
\<close>

datatype pyfloat = Finite real | PosInf | NegInf

definition float64_result :: "real \<Rightarrow> pyfloat" where
  "float64_result q =
     (if 2 ^ 1024 - 2 ^ 970 \<le> q then PosInf
      else if q \<le> - (2 ^ 1024 - 2 ^ 970) then NegInf
      else Finite (float64_round q))"

text \<open>
  \<open>a / b\<close> of two Python integers is the exact quotient rounded to a float and raises
  ZeroDivisionError for \<open>b = 0\<close>. (It raises OverflowError for a quotient beyond the
  floats; the program divides \<open>1\<close> by the frame rate, where this cannot happen, and a
  sum of differences of pixel rows by their number.)
\<close>

definition py_int_truediv :: "int \<Rightarrow> int \<Rightarrow> error + real" where
  "py_int_truediv a b =
     (if b = 0 then Inl ZeroDivisionError
      else Inr (float64_round (real_of_int a / real_of_int b)))"

text \<open>\<open>x / y\<close> of two Python floats raises ZeroDivisionError for \<open>y = 0.0\<close>.\<close>

definition py_float_truediv :: "real \<Rightarrow> real \<Rightarrow> error + pyfloat" where
  "py_float_truediv x y =
     (if y = 0 then Inl ZeroDivisionError else Inr (float64_result (x / y)))"

section \<open>Droplet speed: \<open>Frame.calculate_droplet_speed\<close>\<close>

text \<open>
  An entry of a droplet list is the two-element list \<open>[center_y, radius]\<close> appended by
  \<open>detect_droplets_and_jet\<close>: the row of the centre, an \<open>int\<close>, and the radius, a
  \<open>float64\<close>. The rows are pixel rows of a frame, and the radii are of the same scale:
  their differences, squares and sums stay far inside the range of the floats.
\<close>

type_synonym droplet = "int \<times> real"

text \<open>The local constant \<open>conversion = 0.000038\<close> of the method: a float literal.\<close>

definition conversion :: real where
  "conversion = float64_round (38 / 1000000)"

text \<open>\<open>[pair for pair in reference_pairs if pair[0] > target_pair[0]]\<close>\<close>

definition filtered_pairs :: "droplet list \<Rightarrow> droplet \<Rightarrow> droplet list" where
  "filtered_pairs reference_pairs target_pair =
     [pair \<leftarrow> reference_pairs. fst pair > fst target_pair]"

text \<open>
  \<open>np.array\<close> of a pair, or one row of \<open>np.array\<close> of a list of pairs: a \<open>float64\<close>
  array, in which the row of the centre is converted to a float.
\<close>

definition np_array :: "droplet \<Rightarrow> real list" where
  "np_array pair = [float64_round (real_of_int (fst pair)), snd pair]"

text \<open>One row of \<open>filtered_pairs_array - np.array(target_pair)\<close>.\<close>

definition np_subtract :: "real list \<Rightarrow> real list \<Rightarrow> real list" where
  "np_subtract row target = map2 (\<lambda>a b. float64_round (a - b)) row target"

text \<open>
  \<open>np.linalg.norm(x, axis=1)\<close> computes, for each row of \<open>x\<close>,
  \<open>sqrt(add.reduce(x * x))\<close>: the squares, their sum from left to right and the square
  root are each rounded.
\<close>

fun add_reduce :: "real list \<Rightarrow> real" where
  "add_reduce [] = 0"
| "add_reduce (x # xs) = foldl (\<lambda>a b. float64_round (a + b)) x xs"

definition linalg_norm :: "real list \<Rightarrow> real" where
  "linalg_norm row = float64_round (sqrt (add_reduce (map (\<lambda>x. float64_round (x * x)) row)))"

text \<open>
  \<open>np.argmin\<close> returns the index of the first occurrence of the minimum and raises
  ValueError on an empty sequence. \<open>first_min_index x xs\<close> is that index in \<open>x # xs\<close>.
\<close>

fun first_min_index :: "real \<Rightarrow> real list \<Rightarrow> nat" where
  "first_min_index x [] = 0"
| "first_min_index x (y # ys) =
     (let i = first_min_index y ys in if x \<le> (y # ys) ! i then 0 else Suc i)"

definition argmin :: "real list \<Rightarrow> error + nat" where
  "argmin xs = (case xs of [] \<Rightarrow> Inl ValueError | x # ys \<Rightarrow> Inr (first_min_index x ys))"

text \<open>
  The \<open>for target_pair, reference_pair in zip(target_pairs, reference_pairs)\<close> loop. The
  first argument is what is left of the zipped sequence, the last one is the list
  \<open>closest_pairs\<close> built so far.
\<close>

fun closest_pairs_loop ::
  "(droplet \<times> droplet) list \<Rightarrow> droplet list \<Rightarrow> (int \<times> int) list \<Rightarrow> error + (int \<times> int) list"
where
  "closest_pairs_loop [] reference_pairs closest_pairs = Inr closest_pairs"
| "closest_pairs_loop ((target_pair, reference_pair) # rest) reference_pairs closest_pairs =
     (let y_intercept_difference = fst target_pair - fst reference_pair;
          filtered = filtered_pairs reference_pairs target_pair
      in if length filtered \<noteq> 0 then
           (let distances =
                  map (\<lambda>pair. linalg_norm (np_subtract (np_array pair) (np_array target_pair)))
                    filtered
            in case argmin distances of
                 Inl e \<Rightarrow> Inl e
               | Inr closest_index \<Rightarrow>
                   (case py_index filtered closest_index of
                      Inl e \<Rightarrow> Inl e
                    | Inr closest_pair \<Rightarrow>
                        closest_pairs_loop rest reference_pairs
                          (closest_pairs @ [(fst target_pair, fst closest_pair)])))
         else closest_pairs_loop rest reference_pairs closest_pairs)"

text \<open>
  \<open>distance\<close> after the second loop and the division by the number of pairs. The sum is a
  sum of Python integers, and the division is the true division of two integers, whose
  exact quotient is rounded to a float. Without a pair \<open>distance\<close> stays the integer
  \<open>0\<close>.
\<close>

definition mean_distance :: "(int \<times> int) list \<Rightarrow> real" where
  "mean_distance closest_pairs =
     (if length closest_pairs > 0
      then float64_round
             (real_of_int (fold (\<lambda>pair distance. distance + (snd pair - fst pair)) closest_pairs 0)
                / real (length closest_pairs))
      else 0)"

text \<open>
  The method reads the class variable \<open>Frame.frame_rate\<close>, an \<open>int\<close> (it is set from
  \<open>int(...)\<close> and is \<open>0\<close> until then); it is a parameter here. The last statement is
  \<open>(distance * conversion) / (1 / Frame.frame_rate)\<close>: the product is rounded,
  \<open>1 / Frame.frame_rate\<close> is a division of integers, and the quotient of the two floats
  raises ZeroDivisionError when the divisor is \<open>0.0\<close>. The arguments \<open>lists\<close> and
  \<open>prev_lists\<close> carry the names the method gives them at once, \<open>target_pairs\<close> and
  \<open>reference_pairs\<close>.
\<close>

definition calculate_droplet_speed :: "droplet list \<Rightarrow> droplet list \<Rightarrow> int \<Rightarrow> error + pyfloat" where
  "calculate_droplet_speed target_pairs reference_pairs frame_rate =
     (case closest_pairs_loop (zip target_pairs reference_pairs) reference_pairs [] of
        Inl e \<Rightarrow> Inl e
      | Inr closest_pairs \<Rightarrow>
          (let distance = mean_distance closest_pairs;
               numerator = float64_round (distance * conversion)
           in case py_int_truediv 1 frame_rate of
                Inl e \<Rightarrow> Inl e
              | Inr denominator \<Rightarrow> py_float_truediv numerator denominator))"

subsection \<open>Notions used to state the properties of the speed estimate\<close>

text \<open>
  The Euclidean distance of the \<open>(center_row, radius)\<close> vectors of a candidate \<open>c\<close> and a
  target \<open>t\<close> as it comes out in \<open>float64\<close>: every subtraction, square, sum and square root
  is rounded.
\<close>

definition float64_distance :: "droplet \<Rightarrow> droplet \<Rightarrow> real" where
  "float64_distance c t =
     float64_round (sqrt (float64_round
       (float64_round
          ((float64_round
              (float64_round (real_of_int (fst c)) - float64_round (real_of_int (fst t))))\<^sup>2)
        + float64_round ((float64_round (snd c - snd t))\<^sup>2))))"


text \<open>
  The targets that have a candidate, among those the positional pairing processes: the
  pairing stops at the shorter list, so these are among the first \<open>len(previous)\<close> entries
  of the current list.
\<close>

definition recorded_targets :: "droplet list \<Rightarrow> droplet list \<Rightarrow> droplet list" where
  "recorded_targets current previous =
     [t \<leftarrow> take (length previous) current. \<exists>c \<in> set previous. fst t < fst c]"

text \<open>A float is positive, or not negative.\<close>

fun float_positive :: "pyfloat \<Rightarrow> bool" where
  "float_positive (Finite v) = (0 < v)"
| "float_positive PosInf = True"
| "float_positive NegInf = False"

fun float_nonnegative :: "pyfloat \<Rightarrow> bool" where
  "float_nonnegative (Finite v) = (0 \<le> v)"
| "float_nonnegative PosInf = True"
| "float_nonnegative NegInf = False"

text \<open>
  The entry of the filtered list that one iteration of the loop selects, for a target
  whose filtered list is not empty (the first case is never used).
\<close>

definition closest_candidate :: "droplet list \<Rightarrow> droplet \<Rightarrow> droplet" where
  "closest_candidate reference_pairs target_pair =
     (case filtered_pairs reference_pairs target_pair of
        [] \<Rightarrow> target_pair
      | p # ps \<Rightarrow>
          (p # ps) ! first_min_index
             (linalg_norm (np_subtract (np_array p) (np_array target_pair)))
             (map (\<lambda>pair. linalg_norm (np_subtract (np_array pair) (np_array target_pair))) ps))"

text \<open>
  The row advances of the pairs that the loop records, in the order of the targets: the row
  of the selected entry minus the row of the target.
\<close>

definition advances :: "droplet list \<Rightarrow> droplet list \<Rightarrow> int list" where
  "advances cur prev =
     map (\<lambda>t. fst (closest_candidate prev t) - fst t) (recorded_targets cur prev)"


subsection \<open>The estimator without \<open>y_intercept_difference\<close>\<close>

text \<open>
  The variant the specification allows: the same loop and the same method, with the
  assignment to \<open>y_intercept_difference\<close> left out.
\<close>

fun closest_pairs_loop_omitting ::
  "(droplet \<times> droplet) list \<Rightarrow> droplet list \<Rightarrow> (int \<times> int) list \<Rightarrow> error + (int \<times> int) list"
where
  "closest_pairs_loop_omitting [] reference_pairs closest_pairs = Inr closest_pairs"
| "closest_pairs_loop_omitting ((target_pair, reference_pair) # rest) reference_pairs closest_pairs =
     (let filtered = filtered_pairs reference_pairs target_pair
      in if length filtered \<noteq> 0 then
           (let distances =
                  map (\<lambda>pair. linalg_norm (np_subtract (np_array pair) (np_array target_pair)))
                    filtered
            in case argmin distances of
                 Inl e \<Rightarrow> Inl e
               | Inr closest_index \<Rightarrow>
                   (case py_index filtered closest_index of
                      Inl e \<Rightarrow> Inl e
                    | Inr closest_pair \<Rightarrow>
                        closest_pairs_loop_omitting rest reference_pairs
                          (closest_pairs @ [(fst target_pair, fst closest_pair)])))
         else closest_pairs_loop_omitting rest reference_pairs closest_pairs)"

definition calculate_droplet_speed_omitting ::
  "droplet list \<Rightarrow> droplet list \<Rightarrow> int \<Rightarrow> error + pyfloat" where
  "calculate_droplet_speed_omitting target_pairs reference_pairs frame_rate =
     (case closest_pairs_loop_omitting (zip target_pairs reference_pairs) reference_pairs [] of
        Inl e \<Rightarrow> Inl e
      | Inr closest_pairs \<Rightarrow>
          (let distance = mean_distance closest_pairs;
               numerator = float64_round (distance * conversion)
           in case py_int_truediv 1 frame_rate of
                Inl e \<Rightarrow> Inl e
              | Inr denominator \<Rightarrow> py_float_truediv numerator denominator))"


section \<open>Shapes: \<open>Frame.detect_droplets_and_jet\<close>\<close>

text \<open>
  A contour is the sequence of its boundary points \<open>(x, y)\<close>: \<open>x\<close> is the column and
  \<open>y\<close> the row. The coordinates are pixel indices (NumPy \<open>int32\<close>, far from its bounds),
  modelled as \<open>int\<close>.
\<close>

type_synonym contour = "(int \<times> int) list"

text \<open>
  \<open>cv.moments\<close>, \<open>cv.contourArea\<close> and \<open>cv.arcLength\<close> belong to OpenCV, not to this
  program: they are parameters. \<open>cv.moments\<close> returns a dictionary of floats, of which the
  program reads \<open>m00\<close>, \<open>m10\<close> and \<open>m01\<close>; the other two return a float.
\<close>

record moment =
  m00 :: real
  m10 :: real
  m01 :: real

record cv_contours =
  moments :: "contour \<Rightarrow> moment"
  contourArea :: "contour \<Rightarrow> real"
  arcLength :: "contour \<Rightarrow> real"

text \<open>
  The program draws on \<open>self.cimg\<close>, a copy of the frame, with \<open>cv.circle\<close> and
  \<open>cv.rectangle\<close>. The annotated image is modelled as the list of the shapes drawn so far
  (colour and line width are constants of the program and left out).
\<close>

datatype annotation = Circle "int \<times> int" int | Rectangle "int \<times> int" "int \<times> int"

text \<open>
  \<open>detect_roundness\<close>. The divisions are divisions of Python floats and raise
  ZeroDivisionError on a zero divisor.
\<close>

definition detect_roundness ::
  "cv_contours \<Rightarrow> moment \<Rightarrow> contour \<Rightarrow> error + (real \<times> real \<times> int \<times> int)" where
  "detect_roundness cv moment cnt =
     (if m00 moment = 0 then Inl ZeroDivisionError
      else
        (let center_x = py_int (m10 moment / m00 moment);
             center_y = py_int (m01 moment / m00 moment);
             area = contourArea cv cnt;
             perimeter = arcLength cv cnt
         in if perimeter\<^sup>2 = 0 then Inl ZeroDivisionError
            else Inr ((4 * pi * area) / perimeter\<^sup>2, area, center_x, center_y)))"

text \<open>
  \<open>droplet_rad\<close>. \<open>np.sqrt\<close> of a negative number is NaN, and \<open>int(radius)\<close> then raises
  ValueError.
\<close>

definition droplet_rad ::
  "annotation list \<Rightarrow> real \<Rightarrow> int \<Rightarrow> int \<Rightarrow> int \<Rightarrow> real
     \<Rightarrow> error + (annotation list \<times> int \<times> real \<times> real)" where
  "droplet_rad cimg area center_x center_y circles_num radius_sum =
     (if area / pi < 0 then Inl ValueError
      else
        (let radius = sqrt (area / pi);
             circles_num = circles_num + 1;
             radius_sum = radius_sum + radius
         in Inr (cimg @ [Circle (center_x, center_y) (py_int radius)],
                 circles_num, radius_sum, radius)))"

text \<open>
  \<open>int(np.mean(xs))\<close>: the mean of an empty array is NaN, and \<open>int\<close> of it raises
  ValueError.
\<close>

definition int_mean :: "int list \<Rightarrow> error + int" where
  "int_mean xs = (if xs = [] then Inl ValueError else Inr (py_int (arithmetic_mean xs)))"

text \<open>
  \<open>jet_width_length\<close>. A contour has the shape \<open>(n, 1, 2)\<close>. \<open>np.squeeze\<close> makes it
  \<open>(n, 2)\<close>, but \<open>(2,)\<close> when \<open>n = 1\<close>: then \<open>np.amax(cnt, axis=0)\<close> is a scalar and
  \<open>max[1]\<close> raises IndexError. With no point at all \<open>np.amax\<close> raises ValueError.
\<close>

definition jet_width_length ::
  "annotation list \<Rightarrow> contour \<Rightarrow> error + (annotation list \<times> int \<times> int)" where
  "jet_width_length cimg cnt =
     (if length cnt = 0 then Inl ValueError
      else if length cnt = 1 then Inl IndexError
      else
        (let max_y = Max (set (map snd cnt));
             min_y = Min (set (map snd cnt));
             x_vals = sort (map fst cnt);
             seperator = nat (py_int (real (length x_vals) / 2));
             first_half = take seperator x_vals;
             second_half = drop seperator x_vals
         in case int_mean first_half of
              Inl e \<Rightarrow> Inl e
            | Inr x_val_left \<Rightarrow>
                (case int_mean second_half of
                   Inl e \<Rightarrow> Inl e
                 | Inr x_val_right \<Rightarrow>
                     (let jet_width = x_val_right - x_val_left;
                          jet_length = max_y - min_y
                      in Inr (cimg @ [Rectangle (x_val_left, min_y) (x_val_right, max_y)],
                              jet_width, jet_length)))))"

text \<open>
  The local variables of \<open>detect_droplets_and_jet\<close> that the loop over the contours
  updates, together with \<open>self.cimg\<close>.
\<close>

record detect_state =
  cimg :: "annotation list"
  circles_num :: int
  radius_sum :: real
  jet_width :: int
  jet_length :: int
  droplet_list :: "droplet list"

text \<open>Their values before the loop; nothing is drawn on \<open>self.cimg\<close> yet.\<close>

definition initial_state :: detect_state where
  "initial_state =
     \<lparr>cimg = [], circles_num = 0, radius_sum = 0, jet_width = 0, jet_length = 0,
      droplet_list = []\<rparr>"

text \<open>The body of \<open>for cnt in contours\<close>: two independent \<open>if\<close> statements.\<close>

definition detect_step :: "cv_contours \<Rightarrow> detect_state \<Rightarrow> contour \<Rightarrow> error + detect_state" where
  "detect_step cv st cnt =
     (let moment = moments cv cnt in
      if m00 moment \<noteq> 0 then
        (case detect_roundness cv moment cnt of
           Inl e \<Rightarrow> Inl e
         | Inr (roundness, area, center_x, center_y) \<Rightarrow>
             (case (if roundness \<ge> 1 / 2 then
                      (case droplet_rad (cimg st) area center_x center_y
                              (circles_num st) (radius_sum st) of
                         Inl e \<Rightarrow> Inl e
                       | Inr (cimg', circles_num', radius_sum', radius) \<Rightarrow>
                           Inr (st\<lparr>cimg := cimg', circles_num := circles_num',
                                   radius_sum := radius_sum',
                                   droplet_list := droplet_list st @ [(center_y, radius)]\<rparr>))
                    else Inr st) of
                Inl e \<Rightarrow> Inl e
              | Inr st1 \<Rightarrow>
                  if roundness \<le> 3 / 10 then
                    (case jet_width_length (cimg st1) cnt of
                       Inl e \<Rightarrow> Inl e
                     | Inr (cimg', jet_width', jet_length') \<Rightarrow>
                         Inr (st1\<lparr>cimg := cimg', jet_width := jet_width',
                                  jet_length := jet_length'\<rparr>))
                  else Inr st1))
      else Inr st)"

fun detect_loop :: "cv_contours \<Rightarrow> contour list \<Rightarrow> detect_state \<Rightarrow> error + detect_state" where
  "detect_loop cv [] st = Inr st"
| "detect_loop cv (cnt # contours) st =
     (case detect_step cv st cnt of
        Inl e \<Rightarrow> Inl e
      | Inr st' \<Rightarrow> detect_loop cv contours st')"

text \<open>
  \<open>detect_droplets_and_jet\<close>, from the contours that \<open>cv.findContours\<close> has found in
  \<open>self.processed_image\<close>. It returns
  \<open>(self.cimg, droplet_list, radius_avg, jet_width, jet_length)\<close>.
\<close>

definition detect_droplets_and_jet ::
  "cv_contours \<Rightarrow> contour list
     \<Rightarrow> error + (annotation list \<times> droplet list \<times> real \<times> int \<times> int)" where
  "detect_droplets_and_jet cv contours =
     (case detect_loop cv contours initial_state of
        Inl e \<Rightarrow> Inl e
      | Inr st \<Rightarrow>
          (let radius_avg =
                 (if circles_num st > 0 then radius_sum st / real_of_int (circles_num st) else 0)
           in Inr (cimg st, droplet_list st, radius_avg, jet_width st, jet_length st)))"

subsection \<open>Notions used to state the properties of the frame pass\<close>

text \<open>The roundness, the radius and the centre row the program computes for a contour.\<close>

definition roundness_of :: "cv_contours \<Rightarrow> contour \<Rightarrow> real" where
  "roundness_of cv cnt = (4 * pi * contourArea cv cnt) / (arcLength cv cnt)\<^sup>2"

definition radius_of :: "cv_contours \<Rightarrow> contour \<Rightarrow> real" where
  "radius_of cv cnt = sqrt (contourArea cv cnt / pi)"

definition center_of :: "cv_contours \<Rightarrow> contour \<Rightarrow> int \<times> int" where
  "center_of cv cnt =
     (py_int (m10 (moments cv cnt) / m00 (moments cv cnt)),
      py_int (m01 (moments cv cnt) / m00 (moments cv cnt)))"

text \<open>The shapes that take the first branch of the loop body: the droplets.\<close>

definition is_droplet :: "cv_contours \<Rightarrow> contour \<Rightarrow> bool" where
  "is_droplet cv cnt \<longleftrightarrow> m00 (moments cv cnt) \<noteq> 0 \<and> roundness_of cv cnt \<ge> 1 / 2"

definition real_mean :: "real list \<Rightarrow> real" where
  "real_mean xs = (if xs = [] then 0 else sum_list xs / real (length xs))"

section \<open>Preprocessing: \<open>Frame.process_image\<close>\<close>

text \<open>
  A frame is an array of pixels with three channels; the grey image that
  \<open>cv.cvtColor\<close> makes of it has one channel. An image is a list of rows of pixels.
\<close>

type_synonym grey_pixels = "nat list list"

datatype image = RGB "(nat \<times> nat \<times> nat) list list" | Grey grey_pixels

text \<open>
  The image operations belong to OpenCV and are parameters: the grey values that
  \<open>cv.cvtColor\<close> with \<open>COLOR_RGB2GRAY\<close> computes from the three channels, \<open>cv.erode\<close> and
  \<open>cv.dilate\<close> with a kernel of ones of the given shape and a number of iterations,
  \<open>cv.blur\<close> with a kernel size, and the image that \<open>cv.threshold\<close> returns with
  \<open>THRESH_BINARY_INV\<close> for a threshold and a maximal value.
\<close>

record cv_imgproc =
  rgb2gray :: "(nat \<times> nat \<times> nat) list list \<Rightarrow> grey_pixels"
  erode :: "grey_pixels \<Rightarrow> nat \<times> nat \<Rightarrow> nat \<Rightarrow> grey_pixels"
  dilate :: "grey_pixels \<Rightarrow> nat \<times> nat \<Rightarrow> nat \<Rightarrow> grey_pixels"
  blur :: "grey_pixels \<Rightarrow> nat \<times> nat \<Rightarrow> grey_pixels"
  threshold_binary_inv :: "grey_pixels \<Rightarrow> int \<Rightarrow> int \<Rightarrow> grey_pixels"

text \<open>
  \<open>cv.cvtColor(image, cv.COLOR_RGB2GRAY)\<close> raises \<open>cv2.error\<close> on an image that has
  one channel only.
\<close>

definition cvtColor :: "cv_imgproc \<Rightarrow> image \<Rightarrow> error + grey_pixels" where
  "cvtColor cv img = (case img of RGB pixels \<Rightarrow> Inr (rgb2gray cv pixels) | Grey pixels \<Rightarrow> Inl CvError)"

text \<open>
  What a \<open>Frame\<close> object can read when \<open>__init__\<close> calls \<open>process_image\<close>: its
  attribute \<open>self.image\<close>, the only one set by then, and the class variables
  \<open>Frame.outline\<close>, \<open>Frame.threshold\<close> and \<open>Frame.frame_rate\<close>.
\<close>

record frame =
  self_image :: image
  Frame_outline :: bool
  Frame_threshold :: int
  Frame_frame_rate :: int

text \<open>
  \<open>process_image\<close> returns the thresholded image; it assigns the grey image to
  \<open>self.image\<close>, so the object is returned as well.
\<close>

definition process_image ::
  "cv_imgproc \<Rightarrow> frame \<Rightarrow> int \<Rightarrow> error + (grey_pixels \<times> frame)" where
  "process_image cv self threshold =
     (let ksize = (5, 5);
          max_val = 255;
          kernel = (5, 5)
      in case cvtColor cv (self_image self) of
           Inl e \<Rightarrow> Inl e
         | Inr grey \<Rightarrow>
             (let self = self\<lparr>self_image := Grey grey\<rparr>;
                  img_erode = erode cv grey kernel 1;
                  img_dilate = dilate cv img_erode kernel 1;
                  img_blur = blur cv img_dilate ksize;
                  thresh1 = threshold_binary_inv cv img_blur threshold max_val
              in Inr (thresh1, self)))"

subsection \<open>The Preprocessor of the specification\<close>

text \<open>
  The pipeline of section 4.1 as a function of the frame and the threshold alone:
  grey conversion, erosion with a 5 x 5 element, once, dilation with the same element,
  once, box blur with a 5 x 5 kernel, and the inverse binary threshold against the
  maximum \<open>255\<close>. A frame without three channels is rejected.
\<close>

definition preprocess :: "cv_imgproc \<Rightarrow> image \<Rightarrow> int \<Rightarrow> error + grey_pixels" where
  "preprocess cv img threshold =
     (case img of
        Grey pixels \<Rightarrow> Inl CvError
      | RGB pixels \<Rightarrow>
          Inr (threshold_binary_inv cv
                 (blur cv (dilate cv (erode cv (rgb2gray cv pixels) (5, 5) 1) (5, 5) 1) (5, 5))
                 threshold 255))"

section \<open>Example inputs\<close>

text \<open>
  Measurements under which a contour of \<open>n\<close> points has the area \<open>\<pi>\<close> and the
  perimeter \<open>n \<pi>\<close>, hence the roundness \<open>4 / n\<^sup>2\<close> and the radius \<open>1\<close>.
\<close>

definition example_cv :: cv_contours where
  "example_cv =
     \<lparr>moments = \<lambda>cnt. \<lparr>m00 = 1, m10 = 0, m01 = 0\<rparr>,
      contourArea = \<lambda>cnt. pi,
      arcLength = \<lambda>cnt. real (length cnt) * pi\<rparr>"

text \<open>
  The outline of a jet two pixels wide and thirty long with a tip: a contour of five
  points, with the measurements of this polygon. Its area is \<open>61\<close>, its perimeter
  \<open>62 + 2 sqrt 2\<close>, and its roundness about \<open>0.18\<close>.
\<close>

definition example_jet :: contour where
  "example_jet = [(0, 0), (0, 30), (1, 31), (2, 30), (2, 0)]"

definition example_jet_cv :: cv_contours where
  "example_jet_cv =
     \<lparr>moments = \<lambda>cnt. \<lparr>m00 = 61, m10 = 61, m01 = 2791 / 3\<rparr>,
      contourArea = \<lambda>cnt. 61,
      arcLength = \<lambda>cnt. 62 + 2 * sqrt 2\<rparr>"

text \<open>
  Image operations for images of one colour. The grey value is the weighted sum
  \<open>0.299 R + 0.587 G + 0.114 B\<close>, rounded, and the threshold is the one of
  \<open>THRESH_BINARY_INV\<close>. Erosion, dilation and box blur leave an image of one colour as it
  is, and these operations leave every image as it is.
\<close>

definition example_imgproc :: cv_imgproc where
  "example_imgproc =
     \<lparr>rgb2gray = map (map (\<lambda>(r, g, b). (299 * r + 587 * g + 114 * b + 500) div 1000)),
      erode = \<lambda>img kernel iterations. img,
      dilate = \<lambda>img kernel iterations. img,
      blur = \<lambda>img ksize. img,
      threshold_binary_inv =
        \<lambda>img thresh maxval. map (map (\<lambda>v. if int v > thresh then 0 else nat maxval)) img\<rparr>"

text \<open>A frame of two by two dark pixels, held by a \<open>Frame\<close> object before preprocessing.\<close>

definition example_frame :: frame where
  "example_frame =
     \<lparr>self_image = RGB [[(10, 10, 10), (10, 10, 10)], [(10, 10, 10), (10, 10, 10)]],
      Frame_outline = True, Frame_threshold = 0, Frame_frame_rate = 0\<rparr>"


section \<open>Properties of the rounding\<close>

lemma round_half_even_of_int [simp]: "round_half_even (of_int n) = n"
  by (simp add: round_half_even_def)

lemma round_half_even_ge: "of_int n \<le> y \<Longrightarrow> n \<le> round_half_even y"
proof -
  assume "of_int n \<le> y"
  then have "n \<le> \<lfloor>y\<rfloor>" by (simp add: le_floor_iff)
  then show ?thesis by (auto simp: round_half_even_def Let_def)
qed

lemma round_half_even_le: "y \<le> of_int n \<Longrightarrow> round_half_even y \<le> n"
proof -
  assume le: "y \<le> of_int n"
  show ?thesis
  proof (cases "y = of_int n")
    case True
    then show ?thesis by simp
  next
    case False
    with le have "y < of_int n" by simp
    then have "\<lfloor>y\<rfloor> < n" by (simp add: floor_less_iff)
    then show ?thesis by (auto simp: round_half_even_def Let_def)
  qed
qed


lemma round_half_even_pos: "1 / 2 < y \<Longrightarrow> 1 \<le> round_half_even y"
proof (cases "1 \<le> y")
  case True
  then have "real_of_int 1 \<le> y" by simp
  then show ?thesis by (rule round_half_even_ge)
next
  case False
  assume y: "1 / 2 < y"
  with False have "\<lfloor>y\<rfloor> = 0" by (intro floor_unique) auto
  with y show ?thesis by (simp add: round_half_even_def Let_def)
qed

lemma round_half_even_small: "0 \<le> y \<Longrightarrow> y \<le> 1 / 2 \<Longrightarrow> round_half_even y = 0"
proof -
  assume y: "0 \<le> y" "y \<le> 1 / 2"
  then have "\<lfloor>y\<rfloor> = 0" by (intro floor_unique) auto
  with y show ?thesis by (auto simp: round_half_even_def Let_def)
qed

subsection \<open>The exponent\<close>

lemma floor_log2_eq:
  assumes "2 powi e \<le> x" and "x < 2 powi (e + 1)"
  shows "\<lfloor>log 2 x\<rfloor> = e"
proof -
  have pos: "0 < x" using assms(1) by (smt (verit) zero_less_power_int)
  have "(2::real) powr real_of_int e = 2 powi e"
    by (simp add: powr_real_of_int')
  moreover have "(2::real) powr (real_of_int e + 1) = 2 powi (e + 1)"
    using powr_real_of_int' [of 2 "e + 1"] by simp
  ultimately have "2 powr (real_of_int e) \<le> x \<and> x < 2 powr (real_of_int e + 1)"
    using assms by simp
  then show ?thesis using floor_log_eq_powr_iff [of x 2 e] pos by simp
qed

lemma floor_log2_ge:
  assumes "2 powi k \<le> x"
  shows "k \<le> \<lfloor>log 2 x\<rfloor>"
proof -
  have pos: "0 < x" using assms by (smt (verit) zero_less_power_int)
  have "(2::real) powr real_of_int k = 2 powi k" by (simp add: powr_real_of_int')
  then have "2 powr real_of_int k \<le> x" using assms by simp
  then have "real_of_int k \<le> log 2 x" using pos by (simp add: le_log_iff)
  then show ?thesis by (simp add: le_floor_iff)
qed

lemma floor_log2_less:
  assumes "0 < x" and "x < 2 powi k"
  shows "\<lfloor>log 2 x\<rfloor> < k"
proof -
  have "(2::real) powr real_of_int k = 2 powi k" by (simp add: powr_real_of_int')
  then have "x < 2 powr real_of_int k" using assms by simp
  then have "log 2 x < real_of_int k" using assms(1) by (simp add: log_less_iff)
  then show ?thesis by (simp add: floor_less_iff)
qed

lemma log2_bounds:
  assumes "0 < x"
  shows "2 powi \<lfloor>log 2 x\<rfloor> \<le> x" and "x < 2 powi (\<lfloor>log 2 x\<rfloor> + 1)"
proof -
  have "2 powr real_of_int \<lfloor>log 2 x\<rfloor> \<le> x \<and> x < 2 powr (real_of_int \<lfloor>log 2 x\<rfloor> + 1)"
    using floor_log_eq_powr_iff [of x 2 "\<lfloor>log 2 x\<rfloor>"] assms by simp
  moreover have "(2::real) powr real_of_int \<lfloor>log 2 x\<rfloor> = 2 powi \<lfloor>log 2 x\<rfloor>"
    by (simp add: powr_real_of_int')
  moreover have "(2::real) powr (real_of_int \<lfloor>log 2 x\<rfloor> + 1) = 2 powi (\<lfloor>log 2 x\<rfloor> + 1)"
    using powr_real_of_int' [of 2 "\<lfloor>log 2 x\<rfloor> + 1"] by simp
  ultimately show "2 powi \<lfloor>log 2 x\<rfloor> \<le> x" and "x < 2 powi (\<lfloor>log 2 x\<rfloor> + 1)"
    by simp_all
qed

subsection \<open>Rounding to a float\<close>

lemma float64_round_zero [simp]: "float64_round 0 = 0"
  by (simp add: float64_round_def)

lemma float64_round_normal:
  assumes "2 powi e \<le> \<bar>x\<bar>" and "\<bar>x\<bar> < 2 powi (e + 1)" and "- 1022 \<le> e"
  shows "float64_round x = of_int (round_half_even (x / 2 powi (e - 52))) * 2 powi (e - 52)"
proof -
  have "0 < \<bar>x\<bar>" using assms(1) by (smt (verit) zero_less_power_int)
  then have nz: "x \<noteq> 0" by simp
  have "\<lfloor>log 2 \<bar>x\<bar>\<rfloor> = e" using assms(1,2) by (rule floor_log2_eq)
  then have "max \<lfloor>log 2 \<bar>x\<bar>\<rfloor> (- 1022) = e" using assms(3) by simp
  then show ?thesis using nz by (simp add: float64_round_def Let_def)
qed

lemma float64_round_subnormal:
  assumes "\<bar>x\<bar> < 2 powi (- 1022)"
  shows "float64_round x = of_int (round_half_even (x / 2 powi (- 1074))) * 2 powi (- 1074)"
proof (cases "x = 0")
  case True
  have "round_half_even 0 = 0" using round_half_even_of_int [of 0] by simp
  with True show ?thesis by (simp add: float64_round_def)
next
  case False
  then have "0 < \<bar>x\<bar>" by simp
  then have "\<lfloor>log 2 \<bar>x\<bar>\<rfloor> < - 1022" using assms by (rule floor_log2_less)
  then have "max \<lfloor>log 2 \<bar>x\<bar>\<rfloor> (- 1022) = - 1022" by simp
  then show ?thesis using False by (simp add: float64_round_def Let_def)
qed

lemma float64_round_lower:
  assumes "2 powi k \<le> x" and "- 1022 \<le> k"
  shows "2 powi k \<le> float64_round x"
proof -
  let ?e = "\<lfloor>log 2 x\<rfloor>"
  have pos: "0 < x" using assms(1) by (smt (verit) zero_less_power_int)
  have ke: "k \<le> ?e" using assms(1) by (rule floor_log2_ge)
  have lo: "2 powi ?e \<le> \<bar>x\<bar>" and hi: "\<bar>x\<bar> < 2 powi (?e + 1)"
    using log2_bounds [OF pos] pos by simp_all
  have e: "- 1022 \<le> ?e" using ke assms(2) by (rule order_trans [rotated])
  define u :: real where "u = 2 powi (?e - 52)"
  define n where "n = round_half_even (x / u)"
  have u: "0 < u" by (simp add: u_def)
  have pe: "2 powi ?e = real_of_int (2 ^ 52) * u"
    using power_int_add [of "2::real" 52 "?e - 52"] by (simp add: u_def)
  have "real_of_int (2 ^ 52) * u \<le> x" using lo pos pe by simp
  then have "real_of_int (2 ^ 52) \<le> x / u" using u by (simp add: pos_le_divide_eq)
  then have "2 ^ 52 \<le> n" unfolding n_def by (rule round_half_even_ge)
  then have "real_of_int (2 ^ 52) \<le> real_of_int n" by linarith
  then have "real_of_int (2 ^ 52) * u \<le> real_of_int n * u"
    using u by (simp only: mult_le_cancel_right_pos)
  then have "2 powi ?e \<le> real_of_int n * u" by (simp only: pe)
  moreover have "(2::real) powi k \<le> 2 powi ?e"
    using ke by (simp add: power_int_increasing)
  moreover have "float64_round x = real_of_int n * u"
    using float64_round_normal [OF lo hi e] by (simp only: n_def u_def)
  ultimately show ?thesis by linarith
qed

lemma float64_round_upper:
  assumes "0 < x" and "x \<le> 2 powi k" and "- 1022 \<le> k"
  shows "float64_round x \<le> 2 powi k"
proof -
  let ?e = "max \<lfloor>log 2 \<bar>x\<bar>\<rfloor> (- 1022)"
  let ?u = "(2::real) powi (?e - 52)"
  have u: "0 < ?u" by simp
  have "\<lfloor>log 2 x\<rfloor> \<le> k"
  proof (cases "x = 2 powi k")
    case True
    have "\<lfloor>log 2 (2 powi k :: real)\<rfloor> = k"
      by (rule floor_log2_eq) (simp_all add: power_int_strict_increasing)
    with True show ?thesis by simp
  next
    case False
    with assms(2) have "x < 2 powi k" by simp
    with assms(1) have "\<lfloor>log 2 x\<rfloor> < k" by (rule floor_log2_less)
    then show ?thesis by simp
  qed
  then have ek: "?e \<le> k" using assms(1,3) by simp
  define j where "j = nat (k - ?e + 52)"
  have j: "int j = k - ?e + 52" using ek by (simp add: j_def)
  have pk: "(2::real) powi k = real_of_int (2 ^ j) * ?u"
  proof -
    have "(2::real) powi k = 2 powi (int j) * 2 powi (?e - 52)"
      using power_int_add [of "2::real" "int j" "?e - 52"] j by simp
    then show ?thesis by simp
  qed
  have "x / ?u \<le> real_of_int (2 ^ j)"
    using assms(2) u unfolding pk by (simp add: pos_divide_le_eq)
  then have "round_half_even (x / ?u) \<le> 2 ^ j" by (rule round_half_even_le)
  then have "real_of_int (round_half_even (x / ?u)) \<le> real_of_int (2 ^ j)" by linarith
  then have "real_of_int (round_half_even (x / ?u)) * ?u \<le> real_of_int (2 ^ j) * ?u"
    using u by (simp only: mult_le_cancel_right_pos)
  moreover have "float64_round x = real_of_int (round_half_even (x / ?u)) * ?u"
    using assms(1) by (simp add: float64_round_def Let_def)
  ultimately show ?thesis using pk by simp
qed

subsection \<open>The reciprocal of the frame rate\<close>

lemma powi_1075: "(2::real) powi (- 1075) = 2 powi (- 1074) * (1 / 2)"
proof -
  have "(2::real) powi (- 1075) = 2 powi (- 1074 + - 1)" by simp
  also have "\<dots> = 2 powi (- 1074) * 2 powi (- 1)" by (rule power_int_add) simp
  also have "(2::real) powi (- 1) = 1 / 2"
    by (simp only: power_int_minus power_int_1_right inverse_eq_divide)
  finally show ?thesis .
qed

lemma inverse_2_1075: "1 / (2::real) ^ 1075 = 2 powi (- 1075)"
  by (simp only: power_int_minus power_int_numeral inverse_eq_divide)

lemma float64_round_inverse_pos:
  fixes fr :: int
  assumes "0 < fr" and "fr < 2 ^ 1075"
  shows "0 < float64_round (1 / real_of_int fr)"
proof -
  let ?x = "1 / real_of_int fr"
  have pos: "0 < ?x" using assms(1) by simp
  have "real_of_int fr < 2 ^ 1075" using assms(2) by (metis of_int_less_numeral_power_cancel_iff)
  then have "1 / (2::real) ^ 1075 < ?x" using assms(1) by (simp add: frac_less2)
  then have gt: "2 powi (- 1075) < ?x" by (simp only: inverse_2_1075)
  show ?thesis
  proof (cases "2 powi (- 1022) \<le> ?x")
    case True
    then have "2 powi (- 1022) \<le> float64_round ?x" by (rule float64_round_lower) simp
    moreover have "(0::real) < 2 powi (- 1022)" by simp
    ultimately show ?thesis by linarith
  next
    case False
    then have "\<bar>?x\<bar> < 2 powi (- 1022)" using pos by simp
    then have r: "float64_round ?x
                 = of_int (round_half_even (?x / 2 powi (- 1074))) * 2 powi (- 1074)"
      by (rule float64_round_subnormal)
    have u: "(0::real) < 2 powi (- 1074)" by simp
    have "2 powi (- 1074) * (1 / 2) < ?x" using gt by (simp only: powi_1075)
    then have "1 / 2 < ?x / 2 powi (- 1074)" using u by (simp add: pos_less_divide_eq mult.commute)
    then have "1 \<le> round_half_even (?x / 2 powi (- 1074))" by (rule round_half_even_pos)
    then have "0 < real_of_int (round_half_even (?x / 2 powi (- 1074)))" by linarith
    then have "0 < real_of_int (round_half_even (?x / 2 powi (- 1074))) * 2 powi (- 1074)"
      using u by (rule mult_pos_pos)
    then show ?thesis by (simp only: r)
  qed
qed

lemma float64_round_inverse_le_1:
  fixes fr :: int
  assumes "0 < fr"
  shows "float64_round (1 / real_of_int fr) \<le> 1"
proof -
  have "1 \<le> real_of_int fr" using assms by linarith
  then have "1 / real_of_int fr \<le> 2 powi 0" by simp
  moreover have "0 < 1 / real_of_int fr" using assms by simp
  moreover have "- 1022 \<le> (0::int)" by simp
  ultimately have "float64_round (1 / real_of_int fr) \<le> 2 powi 0"
    by (intro float64_round_upper)
  then show ?thesis by simp
qed

lemma float64_round_inverse_zero:
  fixes fr :: int
  assumes "2 ^ 1075 \<le> fr"
  shows "float64_round (1 / real_of_int fr) = 0"
proof -
  let ?x = "1 / real_of_int fr"
  have big: "(2::real) ^ 1075 \<le> real_of_int fr"
    using assms by (metis of_int_numeral of_int_power of_int_le_iff)
  then have fpos: "0 < real_of_int fr" by (smt (verit) zero_less_power)
  then have pos: "0 < ?x" by simp
  have "?x \<le> 1 / (2::real) ^ 1075" using big by (simp add: frac_le)
  then have le: "?x \<le> 2 powi (- 1075)" by (simp only: inverse_2_1075)
  have "(2::real) powi (- 1075) < 2 powi (- 1022)" by (simp add: power_int_strict_increasing)
  with le pos have "\<bar>?x\<bar> < 2 powi (- 1022)" by simp
  then have r: "float64_round ?x
               = of_int (round_half_even (?x / 2 powi (- 1074))) * 2 powi (- 1074)"
    by (rule float64_round_subnormal)
  have u: "(0::real) < 2 powi (- 1074)" by simp
  have "?x \<le> 2 powi (- 1074) * (1 / 2)" using le by (simp only: powi_1075)
  then have "?x / 2 powi (- 1074) \<le> 1 / 2" using u by (simp add: pos_divide_le_eq mult.commute)
  moreover have "0 \<le> ?x / 2 powi (- 1074)" using pos u by simp
  ultimately have "round_half_even (?x / 2 powi (- 1074)) = 0"
    using round_half_even_small by blast
  then show ?thesis by (simp only: r of_int_0 mult_zero_left)
qed

subsection \<open>Integers below \<open>2 ^ 53\<close> are floats\<close>

lemma float64_round_of_int:
  assumes "\<bar>n\<bar> < 2 ^ 53"
  shows "float64_round (real_of_int n) = real_of_int n"
proof (cases "n = 0")
  case True
  then show ?thesis by simp
next
  case False
  let ?x = "real_of_int n"
  let ?e = "\<lfloor>log 2 \<bar>?x\<bar>\<rfloor>"
  have "1 \<le> \<bar>n\<bar>" using False by simp
  then have "1 \<le> \<bar>?x\<bar>" by linarith
  then have one: "2 powi 0 \<le> \<bar>?x\<bar>" by simp
  then have e0: "0 \<le> ?e" by (rule floor_log2_ge)
  have "\<bar>?x\<bar> < 2 ^ 53" using assms by (metis of_int_abs of_int_less_numeral_power_cancel_iff)
  then have "\<bar>?x\<bar> < 2 powi 53" by simp
  moreover have "0 < \<bar>?x\<bar>" using False by simp
  ultimately have "?e < 53" by (rule floor_log2_less [rotated])
  then have e52: "?e \<le> 52" by simp
  define j where "j = nat (52 - ?e)"
  have j: "int j = 52 - ?e" using e52 by (simp add: j_def)
  have emax: "max ?e (- 1022) = ?e" using e0 by simp
  have u: "(2::real) powi (?e - 52) = 1 / 2 ^ j"
  proof -
    have "?e - 52 = - int j" using j by simp
    then show ?thesis by (simp add: power_int_minus divide_inverse)
  qed
  have "?x / (1 / 2 ^ j) = real_of_int (n * 2 ^ j)" by simp
  then have "round_half_even (?x / (1 / 2 ^ j)) = n * 2 ^ j"
    by (simp only: round_half_even_of_int)
  then have "real_of_int (round_half_even (?x / (1 / 2 ^ j))) * (1 / 2 ^ j) = ?x"
    by simp
  then show ?thesis using False by (simp add: float64_round_def Let_def emax u)
qed


section \<open>Properties of the speed estimate\<close>

subsection \<open>\<open>np.argmin\<close> and the selected entry\<close>

lemma first_min_index_less: "first_min_index x xs < Suc (length xs)"
  by (induction xs arbitrary: x) (auto simp: Let_def)



lemma fold_distance:
  "fold (\<lambda>pair distance. distance + (snd pair - fst pair)) ps (d::int)
     = d + sum_list (map (\<lambda>pair. snd pair - fst pair) ps)"
  by (induction ps arbitrary: d) auto

lemma linalg_norm_distance:
  "linalg_norm (np_subtract (np_array c) (np_array t)) = float64_distance c t"
  by (simp add: linalg_norm_def np_subtract_def np_array_def float64_distance_def
      power2_eq_square)

lemma filtered_pairs_nonempty:
  "filtered_pairs refs t \<noteq> [] \<longleftrightarrow> (\<exists>c \<in> set refs. fst t < fst c)"
  by (auto simp: filtered_pairs_def filter_empty_conv)

lemma closest_candidate_eq:
  assumes "filtered_pairs refs t = p # ps"
  shows "closest_candidate refs t =
           (p # ps) ! first_min_index (float64_distance p t) (map (\<lambda>c. float64_distance c t) ps)"
  by (simp add: closest_candidate_def assms linalg_norm_distance)




lemma closest_candidate_in:
  assumes "filtered_pairs refs t \<noteq> []"
  shows "closest_candidate refs t \<in> set (filtered_pairs refs t)"
proof -
  from assms obtain p ps where f: "filtered_pairs refs t = p # ps"
    by (cases "filtered_pairs refs t") auto
  let ?i = "first_min_index (float64_distance p t) (map (\<lambda>c. float64_distance c t) ps)"
  have "?i < length (p # ps)"
    using first_min_index_less [of "float64_distance p t" "map (\<lambda>c. float64_distance c t) ps"]
    by simp
  then have "(p # ps) ! ?i \<in> set (p # ps)" by (rule nth_mem)
  then show ?thesis by (simp add: closest_candidate_eq [OF f] f)
qed

subsection \<open>The pairing loop\<close>

lemma loop_step_nonempty:
  assumes "filtered_pairs refs t \<noteq> []"
  shows "closest_pairs_loop ((t, r) # rest) refs acc
           = closest_pairs_loop rest refs (acc @ [(fst t, fst (closest_candidate refs t))])"
proof -
  from assms obtain p ps where f: "filtered_pairs refs t = p # ps"
    by (cases "filtered_pairs refs t") auto
  let ?n = "\<lambda>pair. linalg_norm (np_subtract (np_array pair) (np_array t))"
  let ?i = "first_min_index (?n p) (map ?n ps)"
  have "?i < Suc (length ps)"
    using first_min_index_less [of "?n p" "map ?n ps"] by simp
  then show ?thesis
    by (simp add: f argmin_def py_index_def closest_candidate_def Let_def)
qed

lemma closest_pairs_loop_eq:
  "closest_pairs_loop zs refs acc =
     Inr (acc @ map (\<lambda>t. (fst t, fst (closest_candidate refs t)))
                  [t \<leftarrow> map fst zs. filtered_pairs refs t \<noteq> []])"
proof (induction zs arbitrary: acc)
  case Nil
  show ?case by simp
next
  case (Cons z zs)
  obtain t r where z: "z = (t, r)" by (cases z)
  show ?case
  proof (cases "filtered_pairs refs t = []")
    case True
    then show ?thesis using Cons.IH [of acc] by (simp add: z)
  next
    case False
    then show ?thesis
      using Cons.IH [of "acc @ [(fst t, fst (closest_candidate refs t))]"]
      by (simp add: z loop_step_nonempty del: closest_pairs_loop.simps)
  qed
qed

lemma map_fst_zip_take: "map fst (zip xs ys) = take (length ys) xs"
proof (induction xs arbitrary: ys)
  case Nil
  show ?case by simp
next
  case (Cons x xs)
  show ?case by (cases ys) (simp_all add: Cons.IH)
qed

lemma closest_pairs_loop_zip:
  "closest_pairs_loop (zip cur prev) prev [] =
     Inr (map (\<lambda>t. (fst t, fst (closest_candidate prev t))) (recorded_targets cur prev))"
  by (simp add: closest_pairs_loop_eq map_fst_zip_take recorded_targets_def
      filtered_pairs_nonempty)

lemma mean_distance_map:
  "mean_distance (map (\<lambda>t. (fst t, fst (f t))) ts)
     = float64_round (arithmetic_mean (map (\<lambda>t. fst (f t) - fst t) ts))"
  by (simp add: mean_distance_def arithmetic_mean_def fold_distance comp_def)

lemma calculate_droplet_speed_eq:
  "calculate_droplet_speed cur prev fr =
     (if fr = 0 \<or> float64_round (1 / real_of_int fr) = 0 then Inl ZeroDivisionError
      else Inr (float64_result
                  (float64_round (float64_round (arithmetic_mean (advances cur prev)) * conversion)
                   / float64_round (1 / real_of_int fr))))"
  by (simp add: calculate_droplet_speed_def closest_pairs_loop_zip mean_distance_map Let_def
      py_int_truediv_def py_float_truediv_def advances_def)

lemma recorded_targets_take:
  "recorded_targets (take (min (length cur) (length prev)) cur) prev = recorded_targets cur prev"
  by (simp add: recorded_targets_def min_def)

lemma advances_take:
  "advances (take (min (length cur) (length prev)) cur) prev = advances cur prev"
  by (simp only: advances_def recorded_targets_take)

lemma closest_pairs_loop_omitting_eq:
  "closest_pairs_loop_omitting zs refs acc = closest_pairs_loop zs refs acc"
proof (induction zs arbitrary: acc)
  case Nil
  show ?case by simp
next
  case (Cons z zs)
  obtain t r where z: "z = (t, r)" by (cases z)
  show ?case
    by (simp add: z Cons.IH Let_def split: sum.splits)
qed

lemma recorded_target_filtered:
  "t \<in> set (recorded_targets cur prev) \<Longrightarrow> filtered_pairs prev t \<noteq> []"
  by (simp add: recorded_targets_def filtered_pairs_nonempty)

lemma closest_candidate_row_advance:
  assumes "filtered_pairs refs t \<noteq> []"
  shows "1 \<le> fst (closest_candidate refs t) - fst t"
proof -
  from closest_candidate_in [OF assms] have "fst t < fst (closest_candidate refs t)"
    by (simp add: filtered_pairs_def)
  then show ?thesis by simp
qed

lemma sum_list_ge_length:
  "(\<And>x. x \<in> set xs \<Longrightarrow> 1 \<le> x) \<Longrightarrow> int (length xs) \<le> sum_list xs"
  by (induction xs) fastforce+

lemma arithmetic_mean_ge_1:
  assumes "xs \<noteq> []" and "\<And>x. x \<in> set xs \<Longrightarrow> 1 \<le> x"
  shows "1 \<le> arithmetic_mean xs"
proof -
  have "int (length xs) \<le> sum_list xs" using assms(2) by (rule sum_list_ge_length)
  then have "real (length xs) \<le> real_of_int (sum_list xs)" by linarith
  moreover have "0 < real (length xs)" using assms(1) by simp
  ultimately show ?thesis using assms(1) by (simp add: arithmetic_mean_def le_divide_eq)
qed

lemma advances_ge_1: "x \<in> set (advances cur prev) \<Longrightarrow> 1 \<le> x"
  using recorded_target_filtered closest_candidate_row_advance
  by (auto simp: advances_def)

subsection \<open>The sign of the result\<close>

lemma overflow_bound_pos: "(0::real) < 2 ^ 1024 - 2 ^ 970"
proof -
  have "(2::real) ^ 970 < 2 ^ 1024" by (rule power_strict_increasing) simp_all
  then show ?thesis by simp
qed

lemma float64_result_zero: "float64_result 0 = Finite 0"
  using overflow_bound_pos by (simp add: float64_result_def)

lemma float64_result_positive:
  assumes "2 powi k \<le> q" and "- 1022 \<le> k"
  shows "float_positive (float64_result q)"
proof -
  have q: "0 < q" using assms(1) by (smt (verit) zero_less_power_int)
  have "2 powi k \<le> float64_round q" using assms by (rule float64_round_lower)
  then have "0 < float64_round q" by (smt (verit) zero_less_power_int)
  moreover have "\<not> q \<le> - (2 ^ 1024 - 2 ^ 970)" using q overflow_bound_pos by linarith
  ultimately show ?thesis by (simp add: float64_result_def)
qed

lemma conversion_lower: "2 powi (- 15) \<le> conversion"
  unfolding conversion_def
  by (rule float64_round_lower) (simp_all add: power_int_minus)

lemma numerator_lower:
  assumes "1 \<le> m"
  shows "2 powi (- 15) \<le> float64_round (float64_round m * conversion)"
proof -
  have "2 powi 0 \<le> m" using assms by simp
  then have "2 powi 0 \<le> float64_round m" by (rule float64_round_lower) simp
  then have m: "1 \<le> float64_round m" by simp
  have c: "0 < conversion" using conversion_lower by (smt (verit) zero_less_power_int)
  have "1 * conversion \<le> float64_round m * conversion"
    using m c by (simp only: mult_le_cancel_right_pos)
  then have "conversion \<le> float64_round m * conversion" by (simp only: mult_1)
  with conversion_lower have "2 powi (- 15) \<le> float64_round m * conversion"
    by (rule order_trans)
  then show ?thesis by (rule float64_round_lower) simp
qed

lemma quotient_lower:
  assumes "2 powi (- 15) \<le> x" and "0 < r" and "r \<le> 1"
  shows "2 powi (- 15) \<le> x / (r::real)"
proof -
  have x: "0 < x" using assms(1) by (smt (verit) zero_less_power_int)
  have "x \<le> x / r" using x assms(2,3) by (simp add: pos_le_divide_eq mult_left_le)
  with assms(1) show ?thesis by linarith
qed

lemma speed_of_positive_rate:
  assumes "0 < fr" and "fr < 2 ^ 1075"
  shows "calculate_droplet_speed cur prev fr =
           Inr (float64_result
                  (float64_round (float64_round (arithmetic_mean (advances cur prev)) * conversion)
                   / float64_round (1 / real_of_int fr)))"
  using assms float64_round_inverse_pos [OF assms]
  by (simp add: calculate_droplet_speed_eq)

lemma speed_sign:
  assumes "0 < fr" and "fr < 2 ^ 1075"
  shows "\<exists>speed. calculate_droplet_speed cur prev fr = Inr speed \<and> float_nonnegative speed \<and>
           (float_positive speed \<longleftrightarrow> advances cur prev \<noteq> [])"
proof (cases "advances cur prev = []")
  case True
  then have "calculate_droplet_speed cur prev fr = Inr (Finite 0)"
    using speed_of_positive_rate [OF assms, of cur prev]
    by (simp add: arithmetic_mean_def float64_result_zero)
  with True show ?thesis by simp
next
  case False
  let ?x = "float64_round (float64_round (arithmetic_mean (advances cur prev)) * conversion)"
  let ?r = "float64_round (1 / real_of_int fr)"
  have "1 \<le> arithmetic_mean (advances cur prev)"
    using False advances_ge_1 by (rule arithmetic_mean_ge_1)
  then have "2 powi (- 15) \<le> ?x" by (rule numerator_lower)
  then have "2 powi (- 15) \<le> ?x / ?r"
    using float64_round_inverse_pos [OF assms] float64_round_inverse_le_1 [OF assms(1)]
    by (rule quotient_lower)
  then have pos: "float_positive (float64_result (?x / ?r))"
    by (rule float64_result_positive) simp
  then have "float_nonnegative (float64_result (?x / ?r))"
    by (cases "float64_result (?x / ?r)") simp_all
  with pos False show ?thesis
    using speed_of_positive_rate [OF assms, of cur prev] by simp
qed

subsection \<open>Values of the rounding at the examples\<close>

lemma float64_round_eval:
  assumes "2 powi e \<le> \<bar>x\<bar>" and "\<bar>x\<bar> < 2 powi (e + 1)" and "- 1022 \<le> e"
    and "round_half_even (x / 2 powi (e - 52)) = n"
  shows "float64_round x = of_int n * 2 powi (e - 52)"
  using float64_round_normal [OF assms(1-3)] assms(4) by simp

lemmas eval_simps = power_int_minus round_half_even_def Let_def

lemma conversion_value: "conversion = 700976274800963 / 18446744073709551616"
proof -
  have "float64_round (38 / 1000000) = of_int 5607810198407704 * 2 powi (- 15 - 52)"
    by (rule float64_round_eval) (simp_all add: eval_simps)
  then show ?thesis by (simp add: conversion_def power_int_minus)
qed

lemma reciprocal_1000: "float64_round (1 / real_of_int 1000) = 1152921504606847 / 1152921504606846976"
proof -
  have "float64_round (1 / 1000) = of_int 4611686018427388 * 2 powi (- 10 - 52)"
    by (rule float64_round_eval) (simp_all add: eval_simps)
  then show ?thesis by (simp add: power_int_minus)
qed

lemma numerator_10: "float64_round (float64_round 10 * conversion) = 3504881374004815 / 9223372036854775808"
proof -
  have "float64_round (real_of_int 10) = real_of_int 10" by (rule float64_round_of_int) simp
  then have ten: "float64_round 10 = 10" by simp
  have "float64_round (10 * (700976274800963 / 18446744073709551616))
          = of_int 7009762748009630 * 2 powi (- 12 - 52)"
    by (rule float64_round_eval) (simp_all add: eval_simps)
  then show ?thesis by (simp add: ten conversion_value power_int_minus)
qed

lemma overflow_bound_ge: "(2::real) ^ 1023 \<le> 2 ^ 1024 - 2 ^ 970"
proof -
  have "(2::real) ^ 970 \<le> 2 ^ 1023" by (rule power_increasing) simp_all
  moreover have "(2::real) ^ 1024 = 2 ^ 1023 + 2 ^ 1023"
  proof -
    have "(2::real) ^ 1024 = 2 ^ Suc 1023" by simp
    also have "\<dots> = 2 * 2 ^ 1023" by (rule power_Suc)
    finally show ?thesis by simp
  qed
  ultimately show ?thesis by simp
qed

lemma float64_result_finite:
  assumes "\<bar>q\<bar> \<le> 1"
  shows "float64_result q = Finite (float64_round q)"
proof -
  have one: "(1::real) < 2 ^ 1023" by (rule one_less_power) simp_all
  have b: "(1::real) < 2 ^ 1024 - 2 ^ 970" by (rule less_le_trans [OF one overflow_bound_ge])
  have "q \<le> 1" and "- 1 \<le> q" using assms by simp_all
  then have "q < 2 ^ 1024 - 2 ^ 970" and "- (2 ^ 1024 - 2 ^ 970) < q"
    using b by linarith+
  then have "\<not> 2 ^ 1024 - 2 ^ 970 \<le> q" and "\<not> q \<le> - (2 ^ 1024 - 2 ^ 970)"
    by (simp_all only: not_le)
  then show ?thesis by (simp only: float64_result_def if_False)
qed

lemma speed_10_1000:
  "float64_result (float64_round (float64_round 10 * conversion) / float64_round (1 / real_of_int 1000))
     = Finite (3422735716801577 / 9007199254740992)"
proof -
  let ?q = "(3504881374004815 / 9223372036854775808) / (1152921504606847 / 1152921504606846976) :: real"
  have "float64_round ?q = of_int 6845471433603154 * 2 powi (- 2 - 52)"
    by (rule float64_round_eval) (simp_all add: eval_simps)
  then have "float64_round ?q = 3422735716801577 / 9007199254740992"
    by (simp add: power_int_minus)
  moreover have "float64_result ?q = Finite (float64_round ?q)"
    by (rule float64_result_finite) simp
  ultimately show ?thesis
    unfolding numerator_10 reciprocal_1000 by (simp only:)
qed


lemma float64_round_one [simp]: "float64_round 1 = 1"
  using float64_round_of_int [of 1] by simp











lemma small_rate: "(1000::int) < 2 ^ 1075"
proof -
  have "(1000::int) < 2 ^ 10" by simp
  also have "(2::int) ^ 10 \<le> 2 ^ 1075" by (rule power_increasing) simp_all
  finally show ?thesis .
qed

lemma large_rate: "(2::int) ^ 1075 \<le> 10 ^ 400"
proof -
  have "(2::int) ^ 1075 \<le> 2 ^ 1200" by (rule power_increasing) simp_all
  also have "(2::int) ^ 1200 = (2 ^ 3) ^ 400" by (simp only: power_mult [symmetric]) simp
  also have "\<dots> \<le> 10 ^ 400" by (rule power_mono) simp_all
  finally show ?thesis .
qed

lemma speed_of_large_rate:
  assumes "2 ^ 1075 \<le> fr"
  shows "calculate_droplet_speed cur prev fr = Inl ZeroDivisionError"
  using float64_round_inverse_zero [OF assms] by (simp add: calculate_droplet_speed_eq)





lemmas loop_defs = filtered_pairs_def argmin_def py_index_def Let_def

section \<open>Properties of the frame pass\<close>

subsection \<open>The jet measurement\<close>

lemma seperator_eq: "nat (py_int (real n / 2)) = n div 2"
proof -
  have "\<lfloor>real n / real 2\<rfloor> = int (n div 2)" by (rule floor_divide_of_nat_eq)
  then show ?thesis by (simp add: py_int_def)
qed

lemma int_mean_Inr: "xs \<noteq> [] \<Longrightarrow> int_mean xs = Inr (py_int (arithmetic_mean xs))"
  by (simp add: int_mean_def)

subsection \<open>One contour\<close>

lemma detect_roundness_Inr:
  assumes "m00 (moments cv cnt) \<noteq> 0" and "arcLength cv cnt \<noteq> 0"
  shows "detect_roundness cv (moments cv cnt) cnt =
           Inr (roundness_of cv cnt, contourArea cv cnt, center_of cv cnt)"
  using assms by (simp add: detect_roundness_def roundness_of_def center_of_def Let_def)

lemma detect_roundness_cases:
  "m00 m \<noteq> 0 \<Longrightarrow> detect_roundness cv m cnt =
     (if arcLength cv cnt = 0 then Inl ZeroDivisionError
      else Inr ((4 * pi * contourArea cv cnt) / (arcLength cv cnt)\<^sup>2, contourArea cv cnt,
                py_int (m10 m / m00 m), py_int (m01 m / m00 m)))"
  by (simp add: detect_roundness_def Let_def)

lemma roundness_area_pos:
  assumes "arcLength cv cnt \<noteq> 0" and "1 / 2 \<le> roundness_of cv cnt"
  shows "0 < contourArea cv cnt"
proof (rule ccontr)
  assume "\<not> 0 < contourArea cv cnt"
  then have "4 * pi * contourArea cv cnt \<le> 0"
    by (simp add: mult_le_0_iff)
  moreover have "0 < (arcLength cv cnt)\<^sup>2" using assms(1) by simp
  ultimately have "roundness_of cv cnt \<le> 0"
    unfolding roundness_of_def by (simp add: divide_le_0_iff)
  with assms(2) show False by simp
qed

lemma droplet_rad_Inr:
  "0 \<le> area \<Longrightarrow> droplet_rad drawn area cx cy n s =
     Inr (drawn @ [Circle (cx, cy) (py_int (sqrt (area / pi)))], n + 1, s + sqrt (area / pi),
          sqrt (area / pi))"
  by (simp add: droplet_rad_def Let_def not_less)

lemma detect_step_droplet:
  assumes "m00 (moments cv cnt) \<noteq> 0" and "arcLength cv cnt \<noteq> 0"
    and "1 / 2 \<le> roundness_of cv cnt"
  shows "detect_step cv st cnt =
           Inr (st\<lparr>cimg := cimg st @ [Circle (center_of cv cnt) (py_int (radius_of cv cnt))],
                   circles_num := circles_num st + 1,
                   radius_sum := radius_sum st + radius_of cv cnt,
                   droplet_list := droplet_list st @ [(snd (center_of cv cnt), radius_of cv cnt)]\<rparr>)"
proof -
  have a: "0 \<le> contourArea cv cnt" using roundness_area_pos [OF assms(2,3)] by simp
  have r: "\<not> roundness_of cv cnt \<le> 3 / 10" using assms(3) by simp
  show ?thesis
    unfolding detect_step_def Let_def
    using assms(3) r
    by (simp add: assms(1) detect_roundness_Inr [OF assms(1,2)] droplet_rad_Inr [OF a]
        center_of_def radius_of_def)
qed

lemma detect_step_jet:
  assumes "m00 (moments cv cnt) \<noteq> 0" and "arcLength cv cnt \<noteq> 0"
    and "roundness_of cv cnt \<le> 3 / 10"
  shows "detect_step cv st cnt =
           (case jet_width_length (cimg st) cnt of
              Inl e \<Rightarrow> Inl e
            | Inr (drawn, w, l) \<Rightarrow>
                Inr (st\<lparr>cimg := drawn, jet_width := w, jet_length := l\<rparr>))"
proof -
  have r: "\<not> 1 / 2 \<le> roundness_of cv cnt" using assms(3) by simp
  show ?thesis
    unfolding detect_step_def Let_def
    using assms(3) r
    by (simp add: assms(1) detect_roundness_Inr [OF assms(1,2)] center_of_def)
qed

lemma detect_step_none:
  assumes "m00 (moments cv cnt) \<noteq> 0" and "arcLength cv cnt \<noteq> 0"
    and "3 / 10 < roundness_of cv cnt" and "roundness_of cv cnt < 1 / 2"
  shows "detect_step cv st cnt = Inr st"
proof -
  have r: "\<not> 1 / 2 \<le> roundness_of cv cnt" "\<not> roundness_of cv cnt \<le> 3 / 10"
    using assms(3,4) by simp_all
  show ?thesis
    unfolding detect_step_def Let_def
    using r
    by (simp add: assms(1) detect_roundness_Inr [OF assms(1,2)] center_of_def)
qed

lemma detect_step_degenerate:
  "m00 (moments cv cnt) = 0 \<Longrightarrow> detect_step cv st cnt = Inr st"
  by (simp add: detect_step_def)

lemma detect_loop_append:
  "detect_loop cv (xs @ ys) st =
     (case detect_loop cv xs st of Inl e \<Rightarrow> Inl e | Inr st' \<Rightarrow> detect_loop cv ys st')"
  by (induction xs arbitrary: st) (simp_all split: sum.splits)

subsection \<open>The loop over the contours\<close>

lemma detect_step_droplets:
  assumes "detect_step cv st cnt = Inr st'"
  shows "circles_num st' = circles_num st + (if is_droplet cv cnt then 1 else 0) \<and>
         radius_sum st' = radius_sum st + (if is_droplet cv cnt then radius_of cv cnt else 0) \<and>
         droplet_list st' = droplet_list st @
           (if is_droplet cv cnt then [(snd (center_of cv cnt), radius_of cv cnt)] else [])"
proof (cases "m00 (moments cv cnt) = 0")
  case True
  with assms have "st' = st" by (simp add: detect_step_degenerate)
  with True show ?thesis by (simp add: is_droplet_def)
next
  case m: False
  have p: "arcLength cv cnt \<noteq> 0"
  proof
    assume "arcLength cv cnt = 0"
    with m have "detect_step cv st cnt = Inl ZeroDivisionError"
      by (simp add: detect_step_def detect_roundness_cases)
    with assms show False by simp
  qed
  consider (droplet) "1 / 2 \<le> roundness_of cv cnt"
    | (jet) "roundness_of cv cnt \<le> 3 / 10"
    | (none) "3 / 10 < roundness_of cv cnt" "roundness_of cv cnt < 1 / 2"
    by linarith
  then show ?thesis
  proof cases
    case droplet
    from detect_step_droplet [OF m p droplet, of st] assms
    have "st' = st\<lparr>cimg := cimg st @ [Circle (center_of cv cnt) (py_int (radius_of cv cnt))],
                   circles_num := circles_num st + 1,
                   radius_sum := radius_sum st + radius_of cv cnt,
                   droplet_list := droplet_list st @ [(snd (center_of cv cnt), radius_of cv cnt)]\<rparr>"
      by simp
    with m droplet show ?thesis by (simp add: is_droplet_def)
  next
    case jet
    then have nd: "\<not> is_droplet cv cnt" by (simp add: is_droplet_def)
    from detect_step_jet [OF m p jet, of st] assms
    obtain drawn w l where "st' = st\<lparr>cimg := drawn, jet_width := w, jet_length := l\<rparr>"
      by (auto split: sum.splits)
    with nd show ?thesis by simp
  next
    case none
    then have nd: "\<not> is_droplet cv cnt" by (simp add: is_droplet_def)
    from detect_step_none [OF m p none, of st] assms have "st' = st" by simp
    with nd show ?thesis by simp
  qed
qed

lemma detect_loop_droplets:
  assumes "detect_loop cv contours st = Inr st'"
  shows "circles_num st' = circles_num st + int (length (filter (is_droplet cv) contours)) \<and>
         radius_sum st' = radius_sum st
           + sum_list (map (radius_of cv) (filter (is_droplet cv) contours)) \<and>
         droplet_list st' = droplet_list st @
           map (\<lambda>cnt. (snd (center_of cv cnt), radius_of cv cnt)) (filter (is_droplet cv) contours)"
  using assms
proof (induction contours arbitrary: st)
  case Nil
  then show ?case by simp
next
  case (Cons cnt contours)
  from Cons.prems obtain st1 where s1: "detect_step cv st cnt = Inr st1"
    and l1: "detect_loop cv contours st1 = Inr st'"
    by (auto split: sum.splits)
  from detect_step_droplets [OF s1] Cons.IH [OF l1] show ?case by simp
qed

lemmas detect_defs = detect_droplets_and_jet_def detect_step_def detect_roundness_def
  droplet_rad_def py_int_def initial_state_def Let_def

subsection \<open>The example of a jet\<close>

lemma example_jet_sorted: "sort (map fst example_jet) = [0, 0, 1, 2, 2]"
  by (simp add: example_jet_def)

lemma example_jet_measure:
  "jet_width_length [] example_jet = Inr ([Rectangle (0, 0) (1, 31)], 1, 31)"
  by (simp add: jet_width_length_def int_mean_def arithmetic_mean_def py_int_def Let_def
      example_jet_def)

lemma sqrt_2_ge_1: "1 \<le> sqrt 2"
  by simp

lemma example_jet_roundness: "roundness_of example_jet_cv example_jet \<le> 3 / 10"
proof -
  have "(64::real) \<le> 62 + 2 * sqrt 2" using sqrt_2_ge_1 by simp
  then have "(64::real)\<^sup>2 \<le> (62 + 2 * sqrt 2)\<^sup>2" by (rule power_mono) simp
  then have sq: "4096 \<le> (62 + 2 * sqrt 2)\<^sup>2" by simp
  have "4 * pi * 61 \<le> 976" using pi_less_4 by simp
  also have "(976::real) \<le> 3 / 10 * 4096" by simp
  also have "\<dots> \<le> 3 / 10 * (62 + 2 * sqrt 2)\<^sup>2" using sq by simp
  finally have "4 * pi * 61 \<le> 3 / 10 * (62 + 2 * sqrt 2)\<^sup>2" .
  moreover have "0 < (62 + 2 * sqrt 2)\<^sup>2" using sq by linarith
  ultimately have "4 * pi * 61 / (62 + 2 * sqrt 2)\<^sup>2 \<le> 3 / 10"
    by (simp only: pos_divide_le_eq)
  then show ?thesis by (simp add: roundness_of_def example_jet_cv_def)
qed

section \<open>Properties of preprocessing\<close>

lemma process_image_mask:
  "map_sum id fst (process_image cv s threshold) = preprocess cv (self_image s) threshold"
  by (cases "self_image s")
     (simp_all add: process_image_def preprocess_def cvtColor_def Let_def)

lemma process_image_state:
  assumes "process_image cv s threshold = Inr (thresh1, s')"
  shows "\<exists>pixels. self_image s = RGB pixels \<and> s' = s\<lparr>self_image := Grey (rgb2gray cv pixels)\<rparr>"
  using assms
  by (cases "self_image s") (auto simp: process_image_def cvtColor_def Let_def)

lemma process_image_grey:
  "self_image s = Grey pixels \<Longrightarrow> process_image cv s threshold = Inl CvError"
  by (simp add: process_image_def cvtColor_def)

lemma example_first_call:
  "process_image example_imgproc example_frame 100 =
     Inr ([[255, 255], [255, 255]],
          example_frame\<lparr>self_image := Grey [[10, 10], [10, 10]]\<rparr>)"
  by (simp add: process_image_def cvtColor_def example_imgproc_def example_frame_def Let_def)

section \<open>The claims about the speed estimate\<close>




text \<open>
  C3, as amended. Entries of the current list beyond the length of the shorter list are
  unused: cutting the current list to the length of the shorter of the two lists leaves the
  returned value unchanged, for every current list, previous list and frame rate. The
  previous list is not cut, since all of its entries are candidates.
\<close>

theorem only_current_list_truncated:
  "calculate_droplet_speed (take (min (length cur) (length prev)) cur) prev frame_rate
     = calculate_droplet_speed cur prev frame_rate"
  by (simp only: calculate_droplet_speed_eq advances_take)

text \<open>
  C3 as first stated, with both lists cut to the length of the shorter one, fails: the
  second entry of the previous list is the only candidate of the only target.
\<close>

theorem truncating_previous_list_counterexample:
  "calculate_droplet_speed
     (take (min (length [(40, 3) :: droplet]) (length [(30, 3), (50, 3) :: droplet])) [(40, 3)])
     (take (min (length [(40, 3) :: droplet]) (length [(30, 3), (50, 3) :: droplet]))
        [(30, 3), (50, 3)]) 1000
     \<noteq> calculate_droplet_speed [(40, 3)] [(30, 3), (50, 3)] 1000"
proof -
  have fr: "(0::int) < 1000" by simp
  have a0: "advances [(40, 3)] [(30, 3)] = []"
    by (simp add: advances_def recorded_targets_def)
  have a1: "advances [(40, 3)] [(30, 3), (50, 3)] \<noteq> []"
    by (simp add: advances_def recorded_targets_def)
  from speed_sign [OF fr small_rate, of "[(40, 3)]" "[(30, 3)]"] a0
  obtain s0 where s0: "calculate_droplet_speed [(40, 3)] [(30, 3)] 1000 = Inr s0"
    and n0: "\<not> float_positive s0" by auto
  from speed_sign [OF fr small_rate, of "[(40, 3)]" "[(30, 3), (50, 3)]"] a1
  obtain s1 where s1: "calculate_droplet_speed [(40, 3)] [(30, 3), (50, 3)] 1000 = Inr s1"
    and p1: "float_positive s1" by auto
  from n0 p1 have "s0 \<noteq> s1" by auto
  with s0 s1 show ?thesis by simp
qed

text \<open>
  C5, as amended. With an empty previous list and a positive frame rate below
  \<open>2 ^ 1075\<close> the estimator returns the speed \<open>0\<close>, and raises nothing, for every current
  list.
\<close>

theorem empty_previous_list_speed_zero:
  assumes "0 < frame_rate" and "frame_rate < 2 ^ 1075"
  shows "calculate_droplet_speed cur [] frame_rate = Inr (Finite 0)"
proof -
  have "advances cur [] = []" by (simp add: advances_def recorded_targets_def)
  then show ?thesis
    using speed_of_positive_rate [OF assms, of cur "[]"]
    by (simp add: arithmetic_mean_def float64_result_zero)
qed

theorem empty_previous_list_speed_zero_witness:
  "(0::int) < 1000 \<and> (1000::int) < 2 ^ 1075 \<and>
   calculate_droplet_speed [(40, 3), (55, 2)] [] 1000 = Inr (Finite 0)"
proof -
  have fr: "(0::int) < 1000" by simp
  from fr small_rate empty_previous_list_speed_zero [OF fr small_rate, of "[(40, 3), (55, 2)]"]
  show ?thesis by (intro conjI)
qed

text \<open>
  C5 as first stated, for every positive frame rate, fails: the float \<open>1 / 10 ^ 400\<close> is
  \<open>0.0\<close>, and the last division raises ZeroDivisionError.
\<close>

theorem empty_previous_list_huge_rate_counterexample:
  "calculate_droplet_speed [(40, 3), (55, 2)] [] (10 ^ 400) = Inl ZeroDivisionError"
  using large_rate by (rule speed_of_large_rate)

text \<open>
  C6. With the frame rate \<open>0\<close>, which is also the value of \<open>Frame.frame_rate\<close> before
  it is set, the estimator raises ZeroDivisionError for every pair of lists: it returns no
  number.
\<close>

theorem zero_frame_rate_raises:
  "calculate_droplet_speed cur prev 0 = Inl ZeroDivisionError"
  by (simp add: calculate_droplet_speed_eq)

text \<open>
  C9. The estimator without the assignment to \<open>y_intercept_difference\<close> returns the same
  value as the estimator of the source, for every current list, previous list and frame
  rate.
\<close>

theorem y_intercept_difference_unused:
  "calculate_droplet_speed_omitting cur prev frame_rate = calculate_droplet_speed cur prev frame_rate"
  by (simp add: calculate_droplet_speed_omitting_def calculate_droplet_speed_def
      closest_pairs_loop_omitting_eq)

text \<open>
  C10, as amended. For a positive frame rate below \<open>2 ^ 1075\<close> the estimator returns a
  speed that is not negative, and that is positive exactly when the loop has recorded at
  least one pair; every recorded pair advances by at least one row.
\<close>

theorem speed_positive_iff_pair_recorded:
  assumes "0 < frame_rate" and "frame_rate < 2 ^ 1075"
  shows "\<exists>closest_pairs speed.
           closest_pairs_loop (zip cur prev) prev [] = Inr closest_pairs \<and>
           calculate_droplet_speed cur prev frame_rate = Inr speed \<and>
           (\<forall>pair \<in> set closest_pairs. 1 \<le> snd pair - fst pair) \<and>
           float_nonnegative speed \<and> (float_positive speed \<longleftrightarrow> closest_pairs \<noteq> [])"
proof -
  let ?ts = "recorded_targets cur prev"
  let ?ps = "map (\<lambda>t. (fst t, fst (closest_candidate prev t))) ?ts"
  have pairs: "\<forall>pair \<in> set ?ps. 1 \<le> snd pair - fst pair"
    using recorded_target_filtered closest_candidate_row_advance by auto
  have ne: "advances cur prev \<noteq> [] \<longleftrightarrow> ?ps \<noteq> []" by (simp add: advances_def)
  from speed_sign [OF assms, of cur prev]
  obtain speed where "calculate_droplet_speed cur prev frame_rate = Inr speed"
    and "float_nonnegative speed" and "float_positive speed \<longleftrightarrow> ?ps \<noteq> []"
    unfolding ne by blast
  with pairs closest_pairs_loop_zip [of cur prev] show ?thesis by blast
qed

theorem speed_positive_iff_pair_recorded_witness:
  "(0::int) < 1000 \<and> (1000::int) < 2 ^ 1075 \<and>
   closest_pairs_loop (zip [(40, 3)] [(50, 3)]) [(50, 3)] [] = Inr [(40, 50)] \<and>
   calculate_droplet_speed [(40, 3)] [(50, 3)] 1000
     = Inr (Finite (3422735716801577 / 9007199254740992)) \<and>
   closest_pairs_loop (zip [(40, 3)] [(30, 3)]) [(30, 3)] [] = Inr [] \<and>
   calculate_droplet_speed [(40, 3)] [(30, 3)] 1000 = Inr (Finite 0)"
proof -
  have fr: "(0::int) < 1000" by simp
  have a: "closest_pairs_loop (zip [(40, 3)] [(50, 3)]) [(50, 3)] [] = Inr [(40, 50)]"
    by (simp add: loop_defs)
  have c: "closest_pairs_loop (zip [(40, 3)] [(30, 3)]) [(30, 3)] [] = Inr []"
    by (simp add: loop_defs)
  from speed_positive_iff_pair_recorded [OF fr small_rate, of "[(40, 3)]" "[(50, 3)]"]
  obtain ps1 s1 where p1: "closest_pairs_loop (zip [(40, 3)] [(50, 3)]) [(50, 3)] [] = Inr ps1"
    and s1: "calculate_droplet_speed [(40, 3)] [(50, 3)] 1000 = Inr s1"
    and pos1: "float_positive s1 \<longleftrightarrow> ps1 \<noteq> []"
    by blast
  from p1 a have "ps1 \<noteq> []" by simp
  with pos1 have "float_positive s1" by simp
  have adv: "advances [(40, 3)] [(50, 3)] = [10]"
    by (simp add: advances_def recorded_targets_def closest_candidate_def filtered_pairs_def)
  have m: "arithmetic_mean [10] = 10" by (simp add: arithmetic_mean_def)
  have b: "calculate_droplet_speed [(40, 3)] [(50, 3)] 1000
             = Inr (Finite (3422735716801577 / 9007199254740992))"
    using speed_of_positive_rate [OF fr small_rate, of "[(40, 3)]" "[(50, 3)]"]
    unfolding adv m speed_10_1000 .
  from speed_positive_iff_pair_recorded [OF fr small_rate, of "[(40, 3)]" "[(30, 3)]"]
  obtain ps2 s2 where p2: "closest_pairs_loop (zip [(40, 3)] [(30, 3)]) [(30, 3)] [] = Inr ps2"
    and s2: "calculate_droplet_speed [(40, 3)] [(30, 3)] 1000 = Inr s2"
    and pos2: "float_positive s2 \<longleftrightarrow> ps2 \<noteq> []"
    by blast
  from p2 c have "ps2 = []" by simp
  with pos2 have "\<not> float_positive s2" by simp
  have a2: "advances [(40, 3)] [(30, 3)] = []"
    by (simp add: advances_def recorded_targets_def)
  have d: "calculate_droplet_speed [(40, 3)] [(30, 3)] 1000 = Inr (Finite 0)"
    using speed_of_positive_rate [OF fr small_rate, of "[(40, 3)]" "[(30, 3)]"]
    by (simp add: a2 arithmetic_mean_def float64_result_zero)
  from fr small_rate a b c d show ?thesis by blast
qed

text \<open>
  C10 as first stated, for every positive frame rate, fails: at the frame rate
  \<open>2 ^ 1075\<close> a pair is recorded, but the float \<open>1 / frame_rate\<close> is \<open>0.0\<close> and the method
  raises ZeroDivisionError instead of returning a positive speed.
\<close>

theorem recorded_pair_huge_rate_counterexample:
  "closest_pairs_loop (zip [(40, 3)] [(50, 3)]) [(50, 3)] [] = Inr [(40, 50)] \<and>
   calculate_droplet_speed [(40, 3)] [(50, 3)] (2 ^ 1075) = Inl ZeroDivisionError"
proof -
  have "closest_pairs_loop (zip [(40, 3)] [(50, 3)]) [(50, 3)] [] = Inr [(40, 50)]"
    by (simp add: loop_defs)
  moreover have "calculate_droplet_speed [(40, 3)] [(50, 3)] (2 ^ 1075) = Inl ZeroDivisionError"
    by (rule speed_of_large_rate) simp
  ultimately show ?thesis by (rule conjI)
qed

section \<open>The claims about the frame pass\<close>

text \<open>
  C2. A shape whose zeroth moment is not zero (and whose perimeter is not zero, so that
  the roundness exists) is treated by its roundness alone. With a roundness of at least
  \<open>0.5\<close> it is a droplet: it is drawn, counted, its radius is added to the sum and it is
  appended to the droplet list, and the jet measurement stays as it is. With a roundness of
  at most \<open>0.3\<close> it is a jet: its width and length are measured, and the droplets stay as
  they are. With a roundness strictly between the two it changes nothing, and the frame pass
  returns the same with the shape as without it. The three cases exclude each other and
  cover every roundness.
\<close>

theorem classification_by_roundness:
  assumes "m00 (moments cv cnt) \<noteq> 0" and "arcLength cv cnt \<noteq> 0"
  shows "(1 / 2 \<le> roundness_of cv cnt \<longrightarrow>
            detect_step cv st cnt =
              Inr (st\<lparr>cimg := cimg st @ [Circle (center_of cv cnt) (py_int (radius_of cv cnt))],
                      circles_num := circles_num st + 1,
                      radius_sum := radius_sum st + radius_of cv cnt,
                      droplet_list :=
                        droplet_list st @ [(snd (center_of cv cnt), radius_of cv cnt)]\<rparr>))
       \<and> (roundness_of cv cnt \<le> 3 / 10 \<longrightarrow>
            detect_step cv st cnt =
              (case jet_width_length (cimg st) cnt of
                 Inl e \<Rightarrow> Inl e
               | Inr (drawn, w, l) \<Rightarrow>
                   Inr (st\<lparr>cimg := drawn, jet_width := w, jet_length := l\<rparr>)))
       \<and> (3 / 10 < roundness_of cv cnt \<and> roundness_of cv cnt < 1 / 2 \<longrightarrow>
            detect_step cv st cnt = Inr st \<and>
            detect_droplets_and_jet cv (before @ cnt # after)
              = detect_droplets_and_jet cv (before @ after))"
proof (intro conjI impI)
  assume "1 / 2 \<le> roundness_of cv cnt"
  with assms show "detect_step cv st cnt =
              Inr (st\<lparr>cimg := cimg st @ [Circle (center_of cv cnt) (py_int (radius_of cv cnt))],
                      circles_num := circles_num st + 1,
                      radius_sum := radius_sum st + radius_of cv cnt,
                      droplet_list :=
                        droplet_list st @ [(snd (center_of cv cnt), radius_of cv cnt)]\<rparr>)"
    by (rule detect_step_droplet)
next
  assume "roundness_of cv cnt \<le> 3 / 10"
  with assms show "detect_step cv st cnt =
              (case jet_width_length (cimg st) cnt of
                 Inl e \<Rightarrow> Inl e
               | Inr (drawn, w, l) \<Rightarrow>
                   Inr (st\<lparr>cimg := drawn, jet_width := w, jet_length := l\<rparr>))"
    by (rule detect_step_jet)
next
  assume r: "3 / 10 < roundness_of cv cnt \<and> roundness_of cv cnt < 1 / 2"
  then have none: "\<And>s. detect_step cv s cnt = Inr s"
    using assms detect_step_none by blast
  show "detect_step cv st cnt = Inr st" by (rule none)
  have "detect_loop cv (before @ cnt # after) s = detect_loop cv (before @ after) s" for s
    by (simp add: detect_loop_append none split: sum.splits)
  then show "detect_droplets_and_jet cv (before @ cnt # after)
               = detect_droplets_and_jet cv (before @ after)"
    by (simp add: detect_droplets_and_jet_def)
qed

theorem classification_by_roundness_witness:
  "roundness_of example_cv [(0, 0), (1, 1)] = 1 \<and>
   detect_step example_cv initial_state [(0, 0), (1, 1)] =
     Inr \<lparr>cimg = [Circle (0, 0) 1], circles_num = 1, radius_sum = 1, jet_width = 0,
          jet_length = 0, droplet_list = [(0, 1)]\<rparr> \<and>
   roundness_of example_cv [(0, 0), (1, 10), (2, 10), (2, 0)] = 1 / 4 \<and>
   detect_step example_cv initial_state [(0, 0), (1, 10), (2, 10), (2, 0)] =
     Inr \<lparr>cimg = [Rectangle (0, 0) (2, 10)], circles_num = 0, radius_sum = 0, jet_width = 2,
          jet_length = 10, droplet_list = []\<rparr> \<and>
   roundness_of example_cv [(0, 0), (1, 1), (2, 2)] = 4 / 9 \<and>
   detect_step example_cv initial_state [(0, 0), (1, 1), (2, 2)] = Inr initial_state \<and>
   detect_droplets_and_jet example_cv
       ([[(0, 0), (1, 1)]] @ [(0, 0), (1, 1), (2, 2)] # [[(0, 0), (1, 10), (2, 10), (2, 0)]])
     = detect_droplets_and_jet example_cv
       ([[(0, 0), (1, 1)]] @ [[(0, 0), (1, 10), (2, 10), (2, 0)]])"
proof -
  let ?d = "[(0, 0), (1, 1)] :: contour"
  let ?j = "[(0, 0), (1, 10), (2, 10), (2, 0)] :: contour"
  let ?n = "[(0, 0), (1, 1), (2, 2)] :: contour"
  have m: "m00 (moments example_cv c) \<noteq> 0" for c by (simp add: example_cv_def)
  have p: "arcLength example_cv ?d \<noteq> 0" "arcLength example_cv ?j \<noteq> 0"
    "arcLength example_cv ?n \<noteq> 0"
    by (simp_all add: example_cv_def)
  have rd: "roundness_of example_cv ?d = 1"
    by (simp add: roundness_of_def example_cv_def power2_eq_square)
  have rj: "roundness_of example_cv ?j = 1 / 4"
    by (simp add: roundness_of_def example_cv_def power2_eq_square)
  have rn: "roundness_of example_cv ?n = 4 / 9"
    by (simp add: roundness_of_def example_cv_def power2_eq_square)
  have "detect_step example_cv initial_state ?d =
          Inr (initial_state\<lparr>cimg := cimg initial_state @
                   [Circle (center_of example_cv ?d) (py_int (radius_of example_cv ?d))],
                 circles_num := circles_num initial_state + 1,
                 radius_sum := radius_sum initial_state + radius_of example_cv ?d,
                 droplet_list := droplet_list initial_state @
                   [(snd (center_of example_cv ?d), radius_of example_cv ?d)]\<rparr>)"
    using classification_by_roundness [OF m p(1), of initial_state] rd by simp
  then have d: "detect_step example_cv initial_state ?d =
     Inr \<lparr>cimg = [Circle (0, 0) 1], circles_num = 1, radius_sum = 1, jet_width = 0,
          jet_length = 0, droplet_list = [(0, 1)]\<rparr>"
    by (simp add: initial_state_def center_of_def radius_of_def example_cv_def py_int_def)
  have "detect_step example_cv initial_state ?j =
          (case jet_width_length (cimg initial_state) ?j of
             Inl e \<Rightarrow> Inl e
           | Inr (drawn, w, l) \<Rightarrow>
               Inr (initial_state\<lparr>cimg := drawn, jet_width := w, jet_length := l\<rparr>))"
    using classification_by_roundness [OF m p(2), of initial_state] rj by simp
  then have j: "detect_step example_cv initial_state ?j =
     Inr \<lparr>cimg = [Rectangle (0, 0) (2, 10)], circles_num = 0, radius_sum = 0, jet_width = 2,
          jet_length = 10, droplet_list = []\<rparr>"
    by (simp add: initial_state_def jet_width_length_def int_mean_def arithmetic_mean_def
        py_int_def Let_def)
  have n: "detect_step example_cv initial_state ?n = Inr initial_state \<and>
    detect_droplets_and_jet example_cv ([?d] @ ?n # [?j])
      = detect_droplets_and_jet example_cv ([?d] @ [?j])"
    using classification_by_roundness [OF m p(3), of initial_state "[?d]" "[?j]"] rn by simp
  from rd d rj j rn n show ?thesis by blast
qed

text \<open>
  C4, as amended. For a contour of at least two points \<open>jet_width_length\<close> returns the
  length \<open>max(row) - min(row)\<close> over all points, and the width
  \<open>int(mean(right half)) - int(mean(left half))\<close>: each of the two means of the sorted
  columns, split at the index \<open>n div 2\<close>, is truncated to an integer before the
  subtraction. The right half holds the extra point of an odd number of points.
\<close>

theorem jet_width_length_truncated_means:
  assumes "2 \<le> length cnt"
  shows "jet_width_length drawn cnt =
           Inr (drawn @ [Rectangle
                         (py_int (arithmetic_mean (take (length cnt div 2) (sort (map fst cnt)))),
                          Min (set (map snd cnt)))
                         (py_int (arithmetic_mean (drop (length cnt div 2) (sort (map fst cnt)))),
                          Max (set (map snd cnt)))],
                py_int (arithmetic_mean (drop (length cnt div 2) (sort (map fst cnt))))
                  - py_int (arithmetic_mean (take (length cnt div 2) (sort (map fst cnt)))),
                Max (set (map snd cnt)) - Min (set (map snd cnt)))
         \<and> length (drop (length cnt div 2) (sort (map fst cnt)))
             = length (take (length cnt div 2) (sort (map fst cnt))) + length cnt mod 2"
proof -
  let ?xs = "sort (map fst cnt)"
  let ?k = "length cnt div 2"
  have len: "length ?xs = length cnt" by simp
  have k: "nat (py_int (real (length ?xs) / 2)) = ?k"
    by (simp only: len seperator_eq)
  have kpos: "0 < ?k" and klt: "?k < length cnt" using assms by auto
  have l1: "length (take ?k ?xs) = ?k" using klt by (simp add: len)
  have l2: "length (drop ?k ?xs) = length cnt - ?k" by (simp only: length_drop len)
  have ne1: "take ?k ?xs \<noteq> []"
  proof
    assume "take ?k ?xs = []"
    then have "length (take ?k ?xs) = 0" by (simp only: list.size)
    with l1 kpos show False by linarith
  qed
  have ne2: "drop ?k ?xs \<noteq> []"
  proof
    assume "drop ?k ?xs = []"
    then have "length (drop ?k ?xs) = 0" by (simp only: list.size)
    with l2 klt show False by linarith
  qed
  have n0: "length cnt \<noteq> 0" and n1: "length cnt \<noteq> 1" using assms by auto
  have "jet_width_length drawn cnt =
           Inr (drawn @ [Rectangle (py_int (arithmetic_mean (take ?k ?xs)), Min (set (map snd cnt)))
                         (py_int (arithmetic_mean (drop ?k ?xs)), Max (set (map snd cnt)))],
                py_int (arithmetic_mean (drop ?k ?xs)) - py_int (arithmetic_mean (take ?k ?xs)),
                Max (set (map snd cnt)) - Min (set (map snd cnt)))"
    unfolding jet_width_length_def Let_def k
    by (simp only: n0 n1 if_False int_mean_Inr [OF ne1] int_mean_Inr [OF ne2] sum.case)
  moreover have "length (drop ?k ?xs) = length (take ?k ?xs) + length cnt mod 2"
    unfolding l1 l2 by presburger
  ultimately show ?thesis by (rule conjI)
qed

theorem jet_width_length_truncated_means_witness:
  "2 \<le> length example_jet \<and>
   jet_width_length [] example_jet = Inr ([Rectangle (0, 0) (1, 31)], 1, 31) \<and>
   length (drop (length example_jet div 2) (sort (map fst example_jet)))
     = length (take (length example_jet div 2) (sort (map fst example_jet)))
       + length example_jet mod 2"
proof -
  have h: "2 \<le> length example_jet" by (simp add: example_jet_def)
  have len: "length example_jet div 2 = 2" by (simp add: example_jet_def)
  have rows: "map snd example_jet = [0, 30, 31, 30, 0]" by (simp add: example_jet_def)
  from jet_width_length_truncated_means [OF h, of "[]"]
  have "jet_width_length [] example_jet = Inr ([Rectangle (0, 0) (1, 31)], 1, 31)"
    unfolding len example_jet_sorted rows
    by (simp add: arithmetic_mean_def py_int_def)
  moreover from jet_width_length_truncated_means [OF h, of "[]"]
  have "length (drop (length example_jet div 2) (sort (map fst example_jet)))
     = length (take (length example_jet div 2) (sort (map fst example_jet)))
       + length example_jet mod 2"
    by (rule conjunct2)
  ultimately show ?thesis using h by (intro conjI)
qed

text \<open>
  C4 as first stated, with the width as the difference of the two means, fails on a
  shape that the frame pass measures as a jet: the outline of a jet with the sorted columns
  \<open>0, 0, 1, 2, 2\<close> has the means \<open>0\<close> and \<open>5/3\<close>, and the width returned is \<open>1\<close>.
\<close>

theorem jet_width_real_means_counterexample:
  "roundness_of example_jet_cv example_jet \<le> 3 / 10 \<and>
   detect_droplets_and_jet example_jet_cv [example_jet]
     = Inr ([Rectangle (0, 0) (1, 31)], [], 0, 1, 31) \<and>
   arithmetic_mean (drop (length example_jet div 2) (sort (map fst example_jet)))
     - arithmetic_mean (take (length example_jet div 2) (sort (map fst example_jet)))
     = 5 / 3"
proof -
  have m: "m00 (moments example_jet_cv example_jet) \<noteq> 0" by (simp add: example_jet_cv_def)
  have "0 < 62 + 2 * sqrt 2" using sqrt_2_ge_1 by linarith
  then have p: "arcLength example_jet_cv example_jet \<noteq> 0" by (simp add: example_jet_cv_def)
  have step: "detect_step example_jet_cv initial_state example_jet
                = Inr (initial_state\<lparr>cimg := [Rectangle (0, 0) (1, 31)], jet_width := 1,
                         jet_length := 31\<rparr>)"
    unfolding detect_step_jet [OF m p example_jet_roundness]
    by (simp add: initial_state_def example_jet_measure)
  have pass: "detect_droplets_and_jet example_jet_cv [example_jet]
                = Inr ([Rectangle (0, 0) (1, 31)], [], 0, 1, 31)"
    by (simp add: detect_droplets_and_jet_def step) (simp add: initial_state_def)
  have len: "length example_jet div 2 = 2" by (simp add: example_jet_def)
  have means: "arithmetic_mean (drop (length example_jet div 2) (sort (map fst example_jet)))
     - arithmetic_mean (take (length example_jet div 2) (sort (map fst example_jet))) = 5 / 3"
    unfolding len example_jet_sorted by (simp add: arithmetic_mean_def)
  from example_jet_roundness pass means show ?thesis by (intro conjI)
qed

text \<open>
  C7. When the frame pass returns, the radii in the droplet list are \<open>sqrt(area / \<pi>)\<close>
  for the droplet shapes, in the order of the contours, and the average radius returned is
  their arithmetic mean, which is \<open>0\<close> when there is no droplet.
\<close>

theorem radius_avg_is_mean_radius:
  assumes "detect_droplets_and_jet cv contours = Inr (drawn, droplets, radius_avg, w, l)"
  shows "map snd droplets = map (radius_of cv) (filter (is_droplet cv) contours) \<and>
         radius_avg = real_mean (map (radius_of cv) (filter (is_droplet cv) contours))"
proof -
  let ?ds = "filter (is_droplet cv) contours"
  from assms obtain st where loop: "detect_loop cv contours initial_state = Inr st"
    and dl: "droplets = droplet_list st"
    and avg: "radius_avg =
       (if circles_num st > 0 then radius_sum st / real_of_int (circles_num st) else 0)"
    by (auto simp: detect_droplets_and_jet_def Let_def split: sum.splits)
  from detect_loop_droplets [OF loop]
  have n: "circles_num st = int (length ?ds)"
    and s: "radius_sum st = sum_list (map (radius_of cv) ?ds)"
    and d: "droplet_list st = map (\<lambda>cnt. (snd (center_of cv cnt), radius_of cv cnt)) ?ds"
    by (simp_all add: initial_state_def)
  have "map snd droplets = map (radius_of cv) ?ds"
    by (simp add: dl d comp_def)
  moreover have "radius_avg = real_mean (map (radius_of cv) ?ds)"
    by (simp add: avg n s real_mean_def)
  ultimately show ?thesis by (rule conjI)
qed

theorem radius_avg_is_mean_radius_witness:
  "detect_droplets_and_jet
     \<lparr>moments = \<lambda>cnt. \<lparr>m00 = real (length cnt) - 1, m10 = 0, m01 = 0\<rparr>,
      contourArea = \<lambda>cnt. if length cnt = 2 then pi else 4 * pi,
      arcLength = \<lambda>cnt. if length cnt = 2 then 2 * pi else 4 * pi\<rparr>
     [[(0, 0), (1, 1)], [(5, 5)], [(0, 0), (1, 1), (2, 2)]]
   = Inr ([Circle (0, 0) 1, Circle (0, 0) 2], [(0, 1), (0, 2)], 3 / 2, 0, 0) \<and>
   real_mean (map (radius_of
       \<lparr>moments = \<lambda>cnt. \<lparr>m00 = real (length cnt) - 1, m10 = 0, m01 = 0\<rparr>,
        contourArea = \<lambda>cnt. if length cnt = 2 then pi else 4 * pi,
        arcLength = \<lambda>cnt. if length cnt = 2 then 2 * pi else 4 * pi\<rparr>)
     (filter (is_droplet
       \<lparr>moments = \<lambda>cnt. \<lparr>m00 = real (length cnt) - 1, m10 = 0, m01 = 0\<rparr>,
        contourArea = \<lambda>cnt. if length cnt = 2 then pi else 4 * pi,
        arcLength = \<lambda>cnt. if length cnt = 2 then 2 * pi else 4 * pi\<rparr>)
       [[(0, 0), (1, 1)], [(5, 5)], [(0, 0), (1, 1), (2, 2)]])) = 3 / 2"
proof -
  let ?cv = "\<lparr>moments = \<lambda>cnt. \<lparr>m00 = real (length cnt) - 1, m10 = 0, m01 = 0\<rparr>,
      contourArea = \<lambda>cnt. if length cnt = 2 then pi else 4 * pi,
      arcLength = \<lambda>cnt. if length cnt = 2 then 2 * pi else 4 * pi\<rparr>"
  let ?cs = "[[(0, 0), (1, 1)], [(5, 5)], [(0, 0), (1, 1), (2, 2)]] :: contour list"
  have e: "detect_droplets_and_jet ?cv ?cs
             = Inr ([Circle (0, 0) 1, Circle (0, 0) 2], [(0, 1), (0, 2)], 3 / 2, 0, 0)"
    by (simp add: detect_defs power2_eq_square)
  from radius_avg_is_mean_radius [OF e]
  have "3 / 2 = real_mean (map (radius_of ?cv) (filter (is_droplet ?cv) ?cs))"
    by (rule conjunct2)
  then have "real_mean (map (radius_of ?cv) (filter (is_droplet ?cv) ?cs)) = 3 / 2"
    by (rule sym)
  with e show ?thesis by (rule conjI)
qed

section \<open>The claim about preprocessing\<close>

text \<open>
  C8, as amended. The mask that \<open>process_image\<close> returns, or the error it raises, is the
  one of the Preprocessor of the specification for the image of the frame and the threshold
  passed: two \<open>Frame\<close> objects with the same image, called with the same threshold, get
  the same mask, whatever the class variables hold. The call is not without state: it
  replaces \<open>self.image\<close> by the grey image, and a second call on the same object raises.
\<close>

theorem process_image_mask_of_image_and_threshold:
  assumes "self_image s1 = self_image s2"
  shows "map_sum id fst (process_image cv s1 threshold) = preprocess cv (self_image s1) threshold \<and>
         map_sum id fst (process_image cv s2 threshold) = preprocess cv (self_image s1) threshold \<and>
         (\<forall>thresh1 s1'. process_image cv s1 threshold = Inr (thresh1, s1') \<longrightarrow>
            (\<exists>pixels. self_image s1 = RGB pixels \<and>
                       s1' = s1\<lparr>self_image := Grey (rgb2gray cv pixels)\<rparr>) \<and>
            process_image cv s1' threshold = Inl CvError)"
proof (intro conjI allI impI)
  show "map_sum id fst (process_image cv s1 threshold) = preprocess cv (self_image s1) threshold"
    by (rule process_image_mask)
  show "map_sum id fst (process_image cv s2 threshold) = preprocess cv (self_image s1) threshold"
    using assms by (simp add: process_image_mask)
next
  fix thresh1 s1'
  assume a: "process_image cv s1 threshold = Inr (thresh1, s1')"
  then show st: "\<exists>pixels. self_image s1 = RGB pixels \<and>
                   s1' = s1\<lparr>self_image := Grey (rgb2gray cv pixels)\<rparr>"
    by (rule process_image_state)
  then obtain pixels where "s1' = s1\<lparr>self_image := Grey (rgb2gray cv pixels)\<rparr>" by blast
  then have "self_image s1' = Grey (rgb2gray cv pixels)" by simp
  then show "process_image cv s1' threshold = Inl CvError" by (rule process_image_grey)
qed

theorem process_image_mask_of_image_and_threshold_witness:
  "self_image example_frame
     = self_image (example_frame\<lparr>Frame_outline := False, Frame_threshold := 7,
                                  Frame_frame_rate := 1000\<rparr>) \<and>
   map_sum id fst (process_image example_imgproc example_frame 100)
     = Inr [[255, 255], [255, 255]] \<and>
   map_sum id fst
     (process_image example_imgproc
        (example_frame\<lparr>Frame_outline := False, Frame_threshold := 7, Frame_frame_rate := 1000\<rparr>)
        100)
     = Inr [[255, 255], [255, 255]] \<and>
   process_image example_imgproc (example_frame\<lparr>self_image := Grey [[10, 10], [10, 10]]\<rparr>) 100
     = Inl CvError"
proof -
  let ?s2 = "example_frame\<lparr>Frame_outline := False, Frame_threshold := 7,
               Frame_frame_rate := 1000\<rparr>"
  let ?s' = "example_frame\<lparr>self_image := Grey [[10, 10], [10, 10]]\<rparr>"
  have h: "self_image example_frame = self_image ?s2" by simp
  note t = process_image_mask_of_image_and_threshold [OF h, of example_imgproc 100]
  have a: "map_sum id fst (process_image example_imgproc example_frame 100)
             = Inr [[255, 255], [255, 255]]"
    by (simp add: example_first_call)
  from t a have b: "map_sum id fst (process_image example_imgproc ?s2 100)
             = Inr [[255, 255], [255, 255]]"
    by simp
  from t example_first_call have c: "process_image example_imgproc ?s' 100 = Inl CvError"
    by blast
  from h a b c show ?thesis by (intro conjI)
qed

text \<open>
  C8 as first stated, a pure function whose second call gives the same mask, fails: the
  first call on a frame of dark pixels returns the mask and leaves the grey image in the
  object, and the second call on this object raises \<open>cv2.error\<close>.
\<close>

theorem process_image_twice_counterexample:
  "process_image example_imgproc example_frame 100 =
     Inr ([[255, 255], [255, 255]],
          example_frame\<lparr>self_image := Grey [[10, 10], [10, 10]]\<rparr>) \<and>
   process_image example_imgproc (example_frame\<lparr>self_image := Grey [[10, 10], [10, 10]]\<rparr>) 100
     = Inl CvError"
  by (simp add: process_image_def cvtColor_def example_imgproc_def example_frame_def Let_def)

end
